theory Spec2Isabelle
  imports Main
begin

unbundle bit_operations_syntax

chapter \<open>jrtti: the JSON codec, properties, collections and the type registry\<close>

section \<open>Characters\<close>

text \<open>
  A \<^verbatim>\<open>std::string\<close> is a sequence of bytes, so it is a \<^typ>\<open>string\<close> here.
  The characters the code names are given by their byte values.
\<close>

definition dquote :: char where "dquote = CHR 0x22"
definition backslash :: char where "backslash = CHR 0x5C"
definition ch_bs :: char where "ch_bs = CHR 0x08"
definition ch_tab :: char where "ch_tab = CHR 0x09"
definition ch_nl :: char where "ch_nl = CHR 0x0A"
definition ch_ff :: char where "ch_ff = CHR 0x0C"
definition ch_cr :: char where "ch_cr = CHR 0x0D"
definition squote :: char where "squote = CHR 0x27"

text \<open>
  \<^verbatim>\<open>std::istream::get()\<close> returns \<^verbatim>\<open>EOF\<close> (-1) once the stream is
  exhausted, and keeps returning it; stored into \<^verbatim>\<open>char currentChar\<close> it is the
  byte 0xFF.
\<close>

definition eof_char :: char where "eof_char = CHR 0xFF"

text \<open>\<^verbatim>\<open>isspace\<close> in the "C" locale: space, and the bytes 0x09 to 0x0D.\<close>

definition isspace :: "char \<Rightarrow> bool" where
  "isspace c = (c = CHR 0x20 \<or> c = CHR 0x09 \<or> c = CHR 0x0A \<or> c = CHR 0x0B \<or> c = CHR 0x0C \<or> c = CHR 0x0D)"

section \<open>Failures\<close>

text \<open>
  What a call can end with other than a result: one of the exceptions the code or its
  libraries throw, or behaviour the language leaves undefined. A call that never returns
  is the value \<^term>\<open>None\<close> of an option type around the result.
\<close>

datatype failure =
    Error string \<comment> \<open>\<^verbatim>\<open>throw Error( msg )\<close>\<close>
  | out_of_range \<comment> \<open>\<^verbatim>\<open>std::out_of_range\<close>, from \<^verbatim>\<open>std::string::substr\<close>\<close>
  | bad_any_cast \<comment> \<open>\<^verbatim>\<open>boost::bad_any_cast\<close>\<close>
  | bad_function_call \<comment> \<open>calling an empty \<^verbatim>\<open>boost::function\<close>\<close>
  | ReadPastEnd \<comment> \<open>an iterator dereferenced at or behind the end: undefined\<close>
  | InvalidPointer \<comment> \<open>a null or dangling pointer dereferenced: undefined\<close>
  | HexGroupNotModelled \<comment> \<open>see \<open>hex4\<close> below\<close>

section \<open>JSONReader: the tokenizer\<close>

text \<open>
  The reader holds the input stream (the characters not yet read) and the single
  character of lookahead.
\<close>

record JSONReader =
  in_stream :: string
  currentChar :: char

text \<open>\<^verbatim>\<open>currentChar = m_stream.get()\<close>.\<close>

definition advance :: "JSONReader \<Rightarrow> JSONReader" where
  "advance r = (case in_stream r of
       [] \<Rightarrow> r\<lparr>currentChar := eof_char\<rparr>
     | c # cs \<Rightarrow> r\<lparr>in_stream := cs, currentChar := c\<rparr>)"

text \<open>The constructor reads the first character.\<close>

definition JSONReader_new :: "string \<Rightarrow> JSONReader" where
  "JSONReader_new s = advance \<lparr>in_stream = s, currentChar = eof_char\<rparr>"

text \<open>
  \<^verbatim>\<open>isSeparator( char c )\<close> ignores its argument and tests \<^verbatim>\<open>currentChar\<close>.
\<close>

definition isSeparator :: "JSONReader \<Rightarrow> char \<Rightarrow> bool" where
  "isSeparator r c = (if isspace (currentChar r) \<or> currentChar r = CHR '','' then True else False)"

function skipSpaces :: "JSONReader \<Rightarrow> JSONReader" where
  "skipSpaces r = (if isSeparator r (currentChar r) then skipSpaces (advance r) else r)"
  by pat_completeness auto
termination
proof (relation "measure (\<lambda>r. length (in_stream r) + (if isSeparator r (currentChar r) then 1 else 0))")
  show "wf (measure (\<lambda>r. length (in_stream r) + (if isSeparator r (currentChar r) then 1 else 0)))"
    by simp
next
  fix r :: JSONReader
  assume sep: "isSeparator r (currentChar r)"
  show "(advance r, r) \<in> measure (\<lambda>r. length (in_stream r) + (if isSeparator r (currentChar r) then 1 else 0))"
  proof (cases "in_stream r")
    case Nil
    then have "\<not> isSeparator (advance r) (currentChar (advance r))"
      by (simp add: advance_def isSeparator_def isspace_def eof_char_def)
    with Nil sep show ?thesis by (simp add: advance_def)
  next
    case (Cons c cs)
    with sep show ?thesis by (simp add: advance_def)
  qed
qed

declare skipSpaces.simps [simp del]

function skipColon :: "JSONReader \<Rightarrow> JSONReader" where
  "skipColon r = (if currentChar r = CHR '':'' then skipColon (advance r) else r)"
  by pat_completeness auto
termination
proof (relation "measure (\<lambda>r. length (in_stream r) + (if currentChar r = CHR '':'' then 1 else 0))")
  show "wf (measure (\<lambda>r. length (in_stream r) + (if currentChar r = CHR '':'' then 1 else 0)))"
    by simp
next
  fix r :: JSONReader
  assume "currentChar r = CHR '':''"
  then show "(advance r, r) \<in> measure (\<lambda>r. length (in_stream r) + (if currentChar r = CHR '':'' then 1 else 0))"
    by (cases "in_stream r") (simp_all add: advance_def eof_char_def)
qed

declare skipColon.simps [simp del]

text \<open>
  The scanning loops below stop only at their delimiter. After the end of the stream
  \<^verbatim>\<open>currentChar\<close> stays 0xFF, which is no delimiter, so a loop whose delimiter never
  comes runs forever: not returning is the value \<^term>\<open>None\<close>.
\<close>

text \<open>\<^verbatim>\<open>while ( currentChar != '{' ) { objTypeName += currentChar; currentChar = m_stream.get(); }\<close>\<close>

partial_function (option) objectBegin_loop :: "JSONReader \<Rightarrow> string \<Rightarrow> (string \<times> JSONReader) option" where
  "objectBegin_loop r objTypeName =
     (if currentChar r \<noteq> CHR ''{''
      then objectBegin_loop (advance r) (objTypeName @ [currentChar r])
      else Some (objTypeName, r))"

text \<open>\<^verbatim>\<open>boost::trim\<close>: whitespace removed at both ends.\<close>

definition trim :: "string \<Rightarrow> string" where
  "trim s = rev (dropWhile isspace (rev (dropWhile isspace s)))"

definition JSONReader_objectBegin :: "JSONReader \<Rightarrow> (string \<times> JSONReader) option" where
  "JSONReader_objectBegin r =
     (case objectBegin_loop (skipSpaces r) [] of
        None \<Rightarrow> None
      | Some (objTypeName, r1) \<Rightarrow> Some (trim objTypeName, advance r1))"

text \<open>\<^verbatim>\<open>endObject()\<close> skips separators first, so it changes the reader as well.\<close>

definition endObject :: "JSONReader \<Rightarrow> bool \<times> JSONReader" where
  "endObject r = (let r1 = skipSpaces r in (currentChar r1 = CHR ''}'', r1))"

partial_function (option) objectEnd_loop :: "JSONReader \<Rightarrow> JSONReader option" where
  "objectEnd_loop r =
     (if \<not> fst (endObject r) then objectEnd_loop (advance (snd (endObject r)))
      else Some (snd (endObject r)))"

definition JSONReader_objectEnd :: "JSONReader \<Rightarrow> JSONReader option" where
  "JSONReader_objectEnd r = map_option advance (objectEnd_loop r)"

partial_function (option) collectionBegin_loop :: "JSONReader \<Rightarrow> JSONReader option" where
  "collectionBegin_loop r =
     (if currentChar r \<noteq> CHR ''['' then collectionBegin_loop (advance r) else Some r)"

definition JSONReader_collectionBegin :: "JSONReader \<Rightarrow> JSONReader option" where
  "JSONReader_collectionBegin r = map_option advance (collectionBegin_loop r)"

definition endCollection :: "JSONReader \<Rightarrow> bool \<times> JSONReader" where
  "endCollection r = (let r1 = skipSpaces r in (currentChar r1 = CHR '']'', r1))"

partial_function (option) collectionEnd_loop :: "JSONReader \<Rightarrow> JSONReader option" where
  "collectionEnd_loop r =
     (if \<not> fst (endCollection r) then collectionEnd_loop (advance (snd (endCollection r)))
      else Some (snd (endCollection r)))"

definition JSONReader_collectionEnd :: "JSONReader \<Rightarrow> JSONReader option" where
  "JSONReader_collectionEnd r = map_option advance (collectionEnd_loop r)"

text \<open>The characters a reader can still see: the lookahead and the rest of the stream.\<close>

definition pending_chars :: "JSONReader \<Rightarrow> char set" where
  "pending_chars r = insert (currentChar r) (set (in_stream r))"


section \<open>JSONReader: tokens and strings\<close>

text \<open>
  \<^verbatim>\<open>d << std::hex << num; d >> n;\<close> on the four characters after \<^verbatim>\<open>\u\<close>.
  For four hexadecimal digits (either case) the extraction yields their value. What it
  yields for any other group (a sign, a \<^verbatim>\<open>0x\<close> prefix, a shorter run of digits, no
  digit at all, where \<^verbatim>\<open>n\<close> may stay unset) is the stream library's business and is not
  modelled: \<^term>\<open>HexGroupNotModelled\<close>.
\<close>

definition hexDigit :: "char \<Rightarrow> nat option" where
  "hexDigit c =
     (let k = (of_char c :: nat) in
      if 48 \<le> k \<and> k \<le> 57 then Some (k - 48)
      else if 97 \<le> k \<and> k \<le> 102 then Some (k - 87)
      else if 65 \<le> k \<and> k \<le> 70 then Some (k - 55)
      else None)"

definition hex4 :: "char \<Rightarrow> char \<Rightarrow> char \<Rightarrow> char \<Rightarrow> nat option" where
  "hex4 a b c d =
     (case (hexDigit a, hexDigit b, hexDigit c, hexDigit d) of
        (Some x, Some y, Some z, Some w) \<Rightarrow> Some (((x * 16 + y) * 16 + z) * 16 + w)
      | _ \<Rightarrow> None)"

text \<open>\<^verbatim>\<open>ss << c\<close> in front of what the rest of the loop writes.\<close>

definition emit :: "char \<Rightarrow> failure + string \<Rightarrow> failure + string" where
  "emit c rest = (case rest of Inl e \<Rightarrow> Inl e | Inr s \<Rightarrow> Inr (c # s))"

text \<open>
  \<^verbatim>\<open>removeEscapeSeq\<close> walks the string with an iterator. After a backslash it steps to
  the next character without looking for the end, and after \<^verbatim>\<open>\u\<close> it reads four
  more: where the string ends before that, the read is behind the end. \<^verbatim>\<open>char(n)\<close>
  keeps the low byte of the number.
\<close>

fun removeEscapeSeq :: "string \<Rightarrow> failure + string" where
  "removeEscapeSeq [] = Inr []"
| "removeEscapeSeq (c # s) =
     (if c = backslash then
        (case s of
           [] \<Rightarrow> Inl ReadPastEnd
         | e # s1 \<Rightarrow>
             if e = CHR ''b'' then emit ch_bs (removeEscapeSeq s1)
             else if e = CHR ''f'' then emit ch_ff (removeEscapeSeq s1)
             else if e = CHR ''n'' then emit ch_nl (removeEscapeSeq s1)
             else if e = CHR ''r'' then emit ch_cr (removeEscapeSeq s1)
             else if e = CHR ''t'' then emit ch_tab (removeEscapeSeq s1)
             else if e = CHR ''u'' then
               (case s1 of
                  h1 # h2 # h3 # h4 # s2 \<Rightarrow>
                    (case hex4 h1 h2 h3 h4 of
                       None \<Rightarrow> Inl HexGroupNotModelled
                     | Some n \<Rightarrow> emit (char_of n) (removeEscapeSeq s2))
                | _ \<Rightarrow> Inl ReadPastEnd)
             else emit e (removeEscapeSeq s1))
      else emit c (removeEscapeSeq s))"

text \<open>
  \<^verbatim>\<open>getString\<close>: the opening quote is the lookahead. Characters are collected up to the
  next quote; a backslash takes the character after it along, whatever it is.
\<close>

partial_function (option) getString_loop :: "JSONReader \<Rightarrow> string \<Rightarrow> (string \<times> JSONReader) option" where
  "getString_loop r str =
     (if currentChar r \<noteq> dquote then
        (if currentChar r = backslash
         then getString_loop (advance (advance r)) (str @ [currentChar r] @ [currentChar (advance r)])
         else getString_loop (advance r) (str @ [currentChar r]))
      else Some (str, r))"

definition getString :: "JSONReader \<Rightarrow> (failure + string \<times> JSONReader) option" where
  "getString r =
     (case getString_loop (advance r) [] of
        None \<Rightarrow> None
      | Some (str, r1) \<Rightarrow>
          Some (case removeEscapeSeq str of Inl e \<Rightarrow> Inl e | Inr s \<Rightarrow> Inr (s, advance r1)))"

partial_function (option) getToken_loop :: "JSONReader \<Rightarrow> string \<Rightarrow> (string \<times> JSONReader) option" where
  "getToken_loop r token =
     (if \<not> isSeparator r (currentChar r)
      then getToken_loop (advance r) (token @ [currentChar r])
      else Some (token, r))"

definition getToken :: "JSONReader \<Rightarrow> (failure + string \<times> JSONReader) option" where
  "getToken r =
     (let r1 = (if isSeparator r (currentChar r) then skipSpaces r else r) in
      if currentChar r1 = dquote then getString r1
      else map_option Inr (getToken_loop r1 []))"

section \<open>JSONReader: properties and objects\<close>

text \<open>
  \<^verbatim>\<open>boost::any\<close>: empty, or a value of one of the types the reader deals with. A
  pointer is an address in the object store, or null (\<^term>\<open>None\<close>).
\<close>

datatype any =
    AnyEmpty
  | AnyBool bool
  | AnyInt int
  | AnyString string
  | AnyPtr "nat option"

text \<open>
  \<^verbatim>\<open>Metatype::property\<close> and \<^verbatim>\<open>Metatype::read\<close> are declared outside the sources
  at hand, so a property is what \<^verbatim>\<open>readProperty\<close> uses of it: its getter and setter
  on an instance in the object store \<open>'h\<close>, its mode, and the reading of a value of its
  type, which may consume input, change the store, throw, or not return.
\<close>

record 'h ReadableProperty =
  rp_get :: "nat option \<Rightarrow> 'h \<Rightarrow> any"
  rp_set :: "nat option \<Rightarrow> any \<Rightarrow> 'h \<Rightarrow> failure + 'h"
  rp_isWritable :: bool
  rp_isCollection :: bool
  rp_read :: "any \<Rightarrow> JSONReader \<times> 'h \<Rightarrow> (failure + any \<times> JSONReader \<times> 'h) option"

type_synonym 'h ReadableMetatype = "string \<Rightarrow> failure + 'h ReadableProperty"

text \<open>The branch of \<^verbatim>\<open>readProperty\<close> for an ordinary property name.\<close>

definition readProperty_value ::
  "'h ReadableMetatype \<Rightarrow> nat option \<Rightarrow> string \<Rightarrow> JSONReader \<times> 'h \<Rightarrow> (failure + any \<times> JSONReader \<times> 'h) option" where
  "readProperty_value mt instance propName st =
     (case mt propName of
        Inl e \<Rightarrow> Some (Inl e)
      | Inr prop \<Rightarrow>
          (case rp_read prop (rp_get prop instance (snd st)) st of
             None \<Rightarrow> None
           | Some (Inl e) \<Rightarrow> Some (Inl e)
           | Some (Inr (modv, r1, h1)) \<Rightarrow>
               if modv \<noteq> AnyEmpty \<and> \<not> rp_isCollection prop \<and> rp_isWritable prop
               then (case rp_set prop instance modv h1 of
                       Inl e \<Rightarrow> Some (Inl e)
                     | Inr h2 \<Rightarrow> Some (Inr (AnyEmpty, r1, h2)))
               else Some (Inr (AnyEmpty, r1, h1))))"

text \<open>
  \<^verbatim>\<open>readProperty\<close>. For \<^verbatim>\<open>$id\<close> the token after the colon is read and dropped
  (\<^verbatim>\<open>//todo: store ref\<close>); for \<^verbatim>\<open>$ref\<close> it is read and dropped as well
  (\<^verbatim>\<open>// todo: find ref\<close>) and the call returns \<^verbatim>\<open>0\<close>.
\<close>

definition readProperty ::
  "'h ReadableMetatype \<Rightarrow> nat option \<Rightarrow> JSONReader \<times> 'h \<Rightarrow> (failure + any \<times> JSONReader \<times> 'h) option" where
  "readProperty mt instance st =
     (case getToken (fst st) of
        None \<Rightarrow> None
      | Some (Inl e) \<Rightarrow> Some (Inl e)
      | Some (Inr (propName, r1)) \<Rightarrow>
          (let r2 = skipColon r1 in
           if propName = ''$id'' then
             (case getToken r2 of
                None \<Rightarrow> None
              | Some (Inl e) \<Rightarrow> Some (Inl e)
              | Some (Inr (ref, r3)) \<Rightarrow> Some (Inr (AnyEmpty, r3, snd st)))
           else if propName = ''$ref'' then
             (case getToken r2 of
                None \<Rightarrow> None
              | Some (Inl e) \<Rightarrow> Some (Inl e)
              | Some (Inr (ref, r3)) \<Rightarrow> Some (Inr (AnyInt 0, r3, snd st)))
           else readProperty_value mt instance propName (r2, snd st)))"

text \<open>
  \<^verbatim>\<open>while ( !endObject() ) { readProperty( mt, instance ); }\<close>: the value
  \<^verbatim>\<open>readProperty\<close> returns is not looked at.
\<close>

partial_function (option) readObject_loop ::
  "'h ReadableMetatype \<Rightarrow> nat option \<Rightarrow> JSONReader \<times> 'h \<Rightarrow> (failure + JSONReader \<times> 'h) option" where
  "readObject_loop mt instance st =
     (if \<not> fst (endObject (fst st)) then
        (case readProperty mt instance (snd (endObject (fst st)), snd st) of
           None \<Rightarrow> None
         | Some (Inl e) \<Rightarrow> Some (Inl e)
         | Some (Inr (v, r1, h1)) \<Rightarrow> readObject_loop mt instance (r1, h1))
      else Some (Inr (snd (endObject (fst st)), snd st)))"

text \<open>
  \<^verbatim>\<open>readObject\<close>. \<open>create\<close> stands for
  \<^verbatim>\<open>Reflector::instance().metatype( objTypeName ).create()\<close>: it fails for a name that
  is not declared, and otherwise allocates a default instance in the store.
\<close>

definition readObject ::
  "(string \<Rightarrow> 'h \<Rightarrow> failure + nat \<times> 'h) \<Rightarrow> 'h ReadableMetatype \<Rightarrow> nat option \<Rightarrow> JSONReader \<times> 'h
     \<Rightarrow> (failure + any \<times> JSONReader \<times> 'h) option" where
  "readObject create mt instance st =
     (case JSONReader_objectBegin (fst st) of
        None \<Rightarrow> None
      | Some (objTypeName, r1) \<Rightarrow>
          (case (case instance of None \<Rightarrow> create objTypeName (snd st)
                              | Some a \<Rightarrow> Inr (a, snd st)) of
             Inl e \<Rightarrow> Some (Inl e)
           | Inr (inst1, h1) \<Rightarrow>
               (case readObject_loop mt (Some inst1) (r1, h1) of
                  None \<Rightarrow> None
                | Some (Inl e) \<Rightarrow> Some (Inl e)
                | Some (Inr (r2, h2)) \<Rightarrow>
                    (case JSONReader_objectEnd r2 of
                       None \<Rightarrow> None
                     | Some r3 \<Rightarrow> Some (Inr (AnyPtr (Some inst1), r3, h2))))))"

section \<open>JSONWriter\<close>

text \<open>
  The writer appends to its output stream. \<^verbatim>\<open>need_nl\<close> and \<^verbatim>\<open>col_need_nl\<close> are
  not initialised by the constructor, so it takes their first values as arguments.
\<close>

record JSONWriter =
  m_stream :: string
  need_nl :: bool
  col_need_nl :: bool
  indentLevel :: int

definition JSONWriter_new :: "string \<Rightarrow> bool \<Rightarrow> bool \<Rightarrow> JSONWriter" where
  "JSONWriter_new stream nl cnl =
     \<lparr>m_stream = stream, need_nl = nl, col_need_nl = cnl, indentLevel = 0\<rparr>"

text \<open>\<^verbatim>\<open>m_stream << s\<close>.\<close>

definition put :: "string \<Rightarrow> JSONWriter \<Rightarrow> JSONWriter" where
  "put s w = w\<lparr>m_stream := m_stream w @ s\<rparr>"

text \<open>\<^verbatim>\<open>for ( int i = 0; i < indentLevel; ++i ) m_stream << "\t";\<close>\<close>

definition indent :: "JSONWriter \<Rightarrow> JSONWriter" where
  "indent w = put (replicate (nat (indentLevel w)) ch_tab) w"

definition writeBool :: "bool \<Rightarrow> JSONWriter \<Rightarrow> JSONWriter" where
  "writeBool v w = put (if v then ''true'' else ''false'') w"

text \<open>
  \<^verbatim>\<open>writeInt\<close>; \<^verbatim>\<open>numToStr\<close> is declared outside the sources at hand and is an
  argument.
\<close>

definition writeInt :: "(int \<Rightarrow> string) \<Rightarrow> int \<Rightarrow> JSONWriter \<Rightarrow> JSONWriter" where
  "writeInt numToStr v w = put (numToStr v) w"

definition writeNullPtr :: "JSONWriter \<Rightarrow> JSONWriter" where
  "writeNullPtr w = put ''NULL'' w"

definition propertyBegin :: "string \<Rightarrow> JSONWriter \<Rightarrow> JSONWriter" where
  "propertyBegin propName w =
     (let w1 = (if need_nl w then put ('','' @ [ch_nl]) w else w);
          w2 = indent (w1\<lparr>need_nl := True\<rparr>)
      in put ([dquote] @ propName @ [dquote] @ '': '') w2)"

definition propertyEnd :: "JSONWriter \<Rightarrow> JSONWriter" where
  "propertyEnd w = w"

definition JSONWriter_collectionBegin :: "JSONWriter \<Rightarrow> JSONWriter" where
  "JSONWriter_collectionBegin w =
     indent ((put (''['' @ [ch_nl]) w)\<lparr>col_need_nl := False, indentLevel := indentLevel w + 1\<rparr>)"

definition JSONWriter_collectionEnd :: "JSONWriter \<Rightarrow> JSONWriter" where
  "JSONWriter_collectionEnd w =
     put '']'' (indent (put [ch_nl] (w\<lparr>indentLevel := indentLevel w - 1\<rparr>)))"

definition elementBegin :: "JSONWriter \<Rightarrow> JSONWriter" where
  "elementBegin w =
     (let w1 = (if col_need_nl w then indent (put ('','' @ [ch_nl]) w) else w)
      in w1\<lparr>col_need_nl := True\<rparr>)"

definition elementEnd :: "JSONWriter \<Rightarrow> JSONWriter" where
  "elementEnd w = w"

definition writeObjectId :: "string \<Rightarrow> JSONWriter \<Rightarrow> JSONWriter" where
  "writeObjectId objId w =
     put ([dquote] @ ''$id'' @ [dquote] @ '': '' @ [dquote] @ objId @ [dquote]) ((indent w)\<lparr>need_nl := True\<rparr>)"

definition writeObjectRef :: "string \<Rightarrow> JSONWriter \<Rightarrow> JSONWriter" where
  "writeObjectRef objId w =
     put ([dquote] @ ''$ref'' @ [dquote] @ '': '' @ [dquote] @ objId @ [dquote]) ((indent w)\<lparr>need_nl := True\<rparr>)"

text \<open>
  \<^verbatim>\<open>objectBegin( mt )\<close> and \<^verbatim>\<open>objectEnd( mt )\<close> use the descriptor for
  \<^verbatim>\<open>mt.typeInfo().name()\<close> only, so they take that name.
\<close>

definition JSONWriter_objectBegin :: "string \<Rightarrow> JSONWriter \<Rightarrow> JSONWriter" where
  "JSONWriter_objectBegin typeName w =
     (put (typeName @ '' {'' @ [ch_nl]) (w\<lparr>need_nl := False\<rparr>))\<lparr>indentLevel := indentLevel w + 1\<rparr>"

definition JSONWriter_objectEnd :: "string \<Rightarrow> JSONWriter \<Rightarrow> JSONWriter" where
  "JSONWriter_objectEnd typeName w =
     (put ''}'' (indent (put [ch_nl] (w\<lparr>indentLevel := indentLevel w - 1\<rparr>))))\<lparr>need_nl := True\<rparr>"

section \<open>String escaping\<close>

text \<open>The lower-case hexadecimal digit of a number below 16.\<close>

definition hexChar :: "nat \<Rightarrow> char" where
  "hexChar n = (if n < 10 then char_of (48 + n) else char_of (87 + n))"

text \<open>
  Modelled from the spec: \<^verbatim>\<open>MetaString::addEscapeSeq\<close>, which is declared in
  \<^verbatim>\<open>basetypes.hpp\<close>, outside the sources at hand. The spec has strings written with
  the escapes \<^verbatim>\<open>\b \f \n \r \t\<close>, with \<^verbatim>\<open>\uXXXX\<close> for the other control and
  non-ASCII characters, and with the double quote and the backslash escaped (its
  tokenizer ends a quoted string at the next unescaped quote). A \<^verbatim>\<open>std::string\<close>
  holds bytes, so the unit that is escaped is the byte.
\<close>

definition addEscapeChar :: "char \<Rightarrow> string" where
  "addEscapeChar c =
     (if c = dquote then [backslash, dquote]
      else if c = backslash then [backslash, backslash]
      else if c = ch_bs then [backslash, CHR ''b'']
      else if c = ch_ff then [backslash, CHR ''f'']
      else if c = ch_nl then [backslash, CHR ''n'']
      else if c = ch_cr then [backslash, CHR ''r'']
      else if c = ch_tab then [backslash, CHR ''t'']
      else if (of_char c :: nat) < 32 \<or> 127 \<le> (of_char c :: nat)
      then [backslash, CHR ''u'', CHR ''0'', CHR ''0'',
            hexChar ((of_char c :: nat) div 16), hexChar ((of_char c :: nat) mod 16)]
      else [c])"

definition addEscapeSeq :: "string \<Rightarrow> string" where
  "addEscapeSeq s = concat (map addEscapeChar s)"

text \<open>\<^verbatim>\<open>m_stream << '"' << MetaString::addEscapeSeq( value ) << '"'\<close>\<close>

definition writeString :: "string \<Rightarrow> JSONWriter \<Rightarrow> JSONWriter" where
  "writeString v w = put ([dquote] @ addEscapeSeq v @ [dquote]) w"

section \<open>Property\<close>

text \<open>
  \<^verbatim>\<open>enum Mode {Readable=1, Writable=2}\<close>; a property's mode is a set of these bits,
  empty at construction. The annotation container of a property plays no part in what
  follows and is left out.
\<close>

definition Readable :: int where "Readable = 1"
definition Writable :: int where "Writable = 2"

record Property =
  p_type_name :: string
  p_name :: string
  p_mode :: int

definition isReadable :: "'a Property_scheme \<Rightarrow> bool" where
  "isReadable p = ((p_mode p AND Readable) \<noteq> 0)"

definition isWritable :: "'a Property_scheme \<Rightarrow> bool" where
  "isWritable p = ((p_mode p AND Writable) \<noteq> 0)"

definition isReadWrite :: "'a Property_scheme \<Rightarrow> bool" where
  "isReadWrite p = (isReadable p \<and> isWritable p)"

definition isReadOnly :: "'a Property_scheme \<Rightarrow> bool" where
  "isReadOnly p = (isReadable p \<and> \<not> isWritable p)"

definition setMode :: "int \<Rightarrow> 'a Property_scheme \<Rightarrow> 'a Property_scheme" where
  "setMode m p = p\<lparr>p_mode := p_mode p OR m\<rparr>"

text \<open>
  \<^verbatim>\<open>TypedProperty<ClassT, PropT>\<close>. An instance of \<^verbatim>\<open>ClassT\<close> is a value of
  \<open>'c\<close>, and a call that may change it returns the new one. A \<^verbatim>\<open>boost::function\<close> is
  empty (\<^term>\<open>None\<close>) or holds a function; a pointer to a data member is null or gives
  the reading and the writing of that member. \<open>any_cast_PropT\<close> and \<open>any_of_PropT\<close> are
  \<^verbatim>\<open>boost::any_cast<PropNoRefT>\<close> and the conversion of a \<^verbatim>\<open>PropT\<close> to
  \<^verbatim>\<open>boost::any\<close> at this instantiation of the template.
\<close>

record ('c, 'p) TypedProperty = Property +
  m_setter :: "('c \<Rightarrow> 'p \<Rightarrow> 'c) option"
  m_getter :: "('c \<Rightarrow> 'p) option"
  m_dataMember :: "(('c \<Rightarrow> 'p) \<times> ('c \<Rightarrow> 'p \<Rightarrow> 'c)) option"
  any_cast_PropT :: "any \<Rightarrow> 'p option"
  any_of_PropT :: "'p \<Rightarrow> any"

text \<open>
  The constructor sets the type name; the mode is empty and both functions are empty.
  \<^verbatim>\<open>m_dataMember\<close> is not initialised, so its first value is an argument.
\<close>

definition TypedProperty_new ::
  "string \<Rightarrow> (('c \<Rightarrow> 'p) \<times> ('c \<Rightarrow> 'p \<Rightarrow> 'c)) option \<Rightarrow> (any \<Rightarrow> 'p option) \<Rightarrow> ('p \<Rightarrow> any)
     \<Rightarrow> ('c, 'p) TypedProperty" where
  "TypedProperty_new nameOf_PropT dm cast_any to_any =
     \<lparr>p_type_name = nameOf_PropT, p_name = [], p_mode = 0,
      m_setter = None, m_getter = None, m_dataMember = dm,
      any_cast_PropT = cast_any, any_of_PropT = to_any\<rparr>"

definition setter :: "('c \<Rightarrow> 'p \<Rightarrow> 'c) option \<Rightarrow> ('c, 'p) TypedProperty \<Rightarrow> ('c, 'p) TypedProperty" where
  "setter functor p =
     ((if functor \<noteq> None then setMode Writable p else p)\<lparr>m_dataMember := None, m_setter := functor\<rparr>)"

definition setter_dataMember ::
  "(('c \<Rightarrow> 'p) \<times> ('c \<Rightarrow> 'p \<Rightarrow> 'c)) option \<Rightarrow> ('c, 'p) TypedProperty \<Rightarrow> ('c, 'p) TypedProperty" where
  "setter_dataMember dataMember p =
     ((setMode Readable (setMode Writable p))\<lparr>m_dataMember := dataMember, m_setter := None\<rparr>)"

definition getter :: "('c \<Rightarrow> 'p) option \<Rightarrow> ('c, 'p) TypedProperty \<Rightarrow> ('c, 'p) TypedProperty" where
  "getter functor p =
     ((if functor \<noteq> None then setMode Readable p else p)\<lparr>m_getter := functor\<rparr>)"

definition TypedProperty_get :: "('c, 'p) TypedProperty \<Rightarrow> 'c \<Rightarrow> failure + any" where
  "TypedProperty_get p instance =
     (case m_getter p of
        None \<Rightarrow> Inl bad_function_call
      | Some g \<Rightarrow> Inr (any_of_PropT p (g instance)))"

definition internal_set :: "('c, 'p) TypedProperty \<Rightarrow> 'c \<Rightarrow> 'p \<Rightarrow> failure + 'c" where
  "internal_set p instance v =
     (case m_dataMember p of
        Some dm \<Rightarrow> Inr (snd dm instance v)
      | None \<Rightarrow>
          (case m_setter p of
             None \<Rightarrow> Inl bad_function_call
           | Some f \<Rightarrow> Inr (f instance v)))"

definition TypedProperty_set :: "('c, 'p) TypedProperty \<Rightarrow> 'c \<Rightarrow> any \<Rightarrow> failure + 'c" where
  "TypedProperty_set p instance val =
     (if isWritable p then
        (case any_cast_PropT p val of
           None \<Rightarrow> Inl bad_any_cast
         | Some v \<Rightarrow> internal_set p instance v)
      else Inr instance)"

section \<open>Metacollection\<close>

text \<open>
  \<^verbatim>\<open>Metacollection<ClassT>::_fromStr\<close>. The collection is the sequence of its
  elements, and \<^verbatim>\<open>insert( end(), x )\<close> puts \<open>x\<close> behind them. \<^verbatim>\<open>parser\<close> is not
  declared in the function as the sources have it; it is taken as the sequence of
  (key, text) pairs the loop walks through. \<open>elem_fromStr\<close> is the element type's
  \<^verbatim>\<open>_fromStr\<close> on a fresh element, \<open>any_cast_value\<close> is
  \<^verbatim>\<open>boost::any_cast<value_type>\<close>. The function calls neither \<^verbatim>\<open>clear()\<close> nor
  anything else on the collection before the loop.
\<close>

fun fromStr_loop ::
  "(string \<Rightarrow> failure + any) \<Rightarrow> (any \<Rightarrow> 'e option) \<Rightarrow> (string \<times> string) list \<Rightarrow> 'e list
     \<Rightarrow> failure + 'e list" where
  "fromStr_loop elem_fromStr any_cast_value [] collection = Inr collection"
| "fromStr_loop elem_fromStr any_cast_value (it # rest) collection =
     (case elem_fromStr (snd it) of
        Inl e \<Rightarrow> Inl e
      | Inr modv \<Rightarrow>
          (case any_cast_value modv of
             None \<Rightarrow> Inl bad_any_cast
           | Some x \<Rightarrow> fromStr_loop elem_fromStr any_cast_value rest (collection @ [x])))"

definition Metacollection_fromStr ::
  "(string \<Rightarrow> failure + any) \<Rightarrow> (any \<Rightarrow> 'e option) \<Rightarrow> (string \<times> string) list \<Rightarrow> 'e list
     \<Rightarrow> failure + any \<times> 'e list" where
  "Metacollection_fromStr elem_fromStr any_cast_value parser collection =
     (case fromStr_loop elem_fromStr any_cast_value parser collection of
        Inl e \<Rightarrow> Inl e
      | Inr c \<Rightarrow> Inr (AnyEmpty, c))"

section \<open>Reflector: the type registry\<close>

text \<open>
  The types the registry is instantiated at: the ten built-in ones, a class (given by
  the name \<^verbatim>\<open>typeid\<close> has for it) and the pointer to a type.
\<close>

datatype cpp_type =
    T_bool | T_char | T_short | T_int | T_long | T_float | T_double | T_long_double
  | T_wchar_t | T_std_string
  | T_class string
  | T_pointer cpp_type

text \<open>
  The code has three variants, chosen by the preprocessor: GNU C++ (\<^verbatim>\<open>__GNUG__\<close>),
  Borland C++ (\<^verbatim>\<open>__BORLANDC__\<close>), and any other compiler. What the implementation
  decides is a parameter as well: \<^verbatim>\<open>typeid( T ).name()\<close>, and
  \<^verbatim>\<open>abi::__cxa_demangle\<close>, which gives the readable name when its status is 0 and
  nothing otherwise.
\<close>

datatype compiler = GNUG | BORLANDC | OtherCompiler

record platform =
  compiler :: compiler
  typeid_name :: "cpp_type \<Rightarrow> string"
  cxa_demangle :: "string \<Rightarrow> string option"

text \<open>
  A descriptor object. \<open>mt_class\<close> is the class the object was created as, which
  \<^verbatim>\<open>dynamic_cast\<close> looks at. The descriptor classes are declared outside the sources
  at hand; a descriptor for \<open>T\<close> is taken to carry \<^verbatim>\<open>typeid( T )\<close>, as the constructor
  call \<^verbatim>\<open>MetaPointerType( typeid( T* ), *mc )\<close> shows for the pointer descriptor.
  \<^verbatim>\<open>Annotations\<close> is a container of annotation objects, given here by their class
  names.
\<close>

datatype metatype_class =
    MetaBool | MetaChar | MetaShort | MetaInt | MetaLong | MetaFloat | MetaDouble
  | MetaLongDouble | MetaWchar_t | MetaString
  | CustomMetaclass cpp_type
  | CustomMetaclass_abstract cpp_type
  | Metacollection cpp_type
  | MetaPointerType

type_synonym Annotations = "string list"

record Metatype =
  mt_class :: metatype_class
  typeInfo_name :: string
  pointerMetatype :: "nat option"
  pointee :: "nat option"
  mt_annotations :: Annotations

text \<open>
  The registry with the memory it manages. \<open>meta_types\<close> is \<^verbatim>\<open>_meta_types\<close>, a map
  from type names to descriptor addresses; \<open>m_pendingProperties\<close> is the multimap of
  (type name, property address) entries, in insertion order. \<open>heap\<close> holds the
  descriptors created with \<^verbatim>\<open>new\<close>, which takes the address \<open>next_address\<close>;
  \<open>property_metatype\<close> is the metatype pointer of each \<^verbatim>\<open>Property\<close> object, by the
  object's address (\<^verbatim>\<open>Property::setMetatype\<close> writes it). The two reference maps
  \<^verbatim>\<open>m_addressRefs\<close> and \<^verbatim>\<open>m_nameRefs\<close> are only handed out by their accessors;
  no function below reads or writes them, and they are left out.
\<close>

record Reflector =
  meta_types :: "string \<rightharpoonup> nat"
  m_prefixDecorators :: "string list"
  m_pendingProperties :: "(string \<times> nat) list"
  heap :: "nat \<rightharpoonup> Metatype"
  next_address :: nat
  property_metatype :: "nat \<Rightarrow> nat option"

definition new_metatype :: "Metatype \<Rightarrow> Reflector \<Rightarrow> nat \<times> Reflector" where
  "new_metatype obj r =
     (next_address r, r\<lparr>heap := (heap r)(next_address r \<mapsto> obj), next_address := Suc (next_address r)\<rparr>)"

definition registerPrefixDecorator :: "string \<Rightarrow> Reflector \<Rightarrow> Reflector" where
  "registerPrefixDecorator decorator r = r\<lparr>m_prefixDecorators := m_prefixDecorators r @ [decorator]\<rparr>"

text \<open>
  \<^verbatim>\<open>name.find( str )\<close>: the first position at which \<open>str\<close> occurs in \<open>name\<close>, if
  any.
\<close>

fun find_substring :: "string \<Rightarrow> string \<Rightarrow> nat option" where
  "find_substring str [] = (if str = [] then Some 0 else None)"
| "find_substring str (c # cs) =
     (if take (length str) (c # cs) = str then Some 0
      else map_option Suc (find_substring str cs))"

text \<open>
  The loop of \<^verbatim>\<open>demangle\<close> over the prefix decorators, which the third variant runs.
  For the first decorator found in the name, the name is cut behind the decorator and
  one more character; \<^verbatim>\<open>name.substr( pos )\<close> throws when \<open>pos\<close> is behind the end of
  the name.
\<close>

fun demangle_decorators :: "string list \<Rightarrow> string \<Rightarrow> failure + string" where
  "demangle_decorators [] name = Inr name"
| "demangle_decorators (decorator # rest) name =
     (case find_substring decorator name of
        Some pos \<Rightarrow>
          (if length name < pos + length decorator + 1 then Inl out_of_range
           else Inr (drop (pos + length decorator + 1) name))
      | None \<Rightarrow> demangle_decorators rest name)"

definition Reflector_demangle :: "platform \<Rightarrow> Reflector \<Rightarrow> string \<Rightarrow> failure + string" where
  "Reflector_demangle pf r name =
     (case compiler pf of
        GNUG \<Rightarrow> Inr (case cxa_demangle pf name of Some res \<Rightarrow> res | None \<Rightarrow> name)
      | BORLANDC \<Rightarrow> Inr name
      | OtherCompiler \<Rightarrow> demangle_decorators (m_prefixDecorators r) name)"

text \<open>
  The first lines of \<^verbatim>\<open>metatype( const std::string& pname )\<close>. The Borland variant
  drops a trailing \<^verbatim>\<open>&\<close> together with the character before it:
  \<^verbatim>\<open>if ( name[name.length()-1]=='&' ) name = name.substr( 0, name.length()-2 );\<close>
  On the empty name the index is out of range; on the one-character name \<^verbatim>\<open>&\<close> the
  count wraps around and the name stays.
\<close>

definition lookup_name :: "platform \<Rightarrow> string \<Rightarrow> failure + string" where
  "lookup_name pf pname =
     (if compiler pf = BORLANDC then
        (if pname = [] then Inl ReadPastEnd
         else if last pname = CHR ''&''
         then Inr (if length pname = 1 then pname else take (length pname - 2) pname)
         else Inr pname)
      else Inr pname)"

text \<open>
  \<^verbatim>\<open>metatype( const std::string& pname )\<close>: the lookup by name. The message of the
  error is built first, so a failure of \<^verbatim>\<open>demangle\<close> is what the call ends with.
\<close>

definition Reflector_metatype :: "platform \<Rightarrow> string \<Rightarrow> Reflector \<Rightarrow> failure + nat" where
  "Reflector_metatype pf pname r =
     (case lookup_name pf pname of
        Inl e \<Rightarrow> Inl e
      | Inr name \<Rightarrow>
          (case meta_types r name of
             None \<Rightarrow>
               (case Reflector_demangle pf r name of
                  Inl e \<Rightarrow> Inl e
                | Inr readable \<Rightarrow>
                    Inl (Error (''Metatype '' @ [squote] @ readable @ [squote] @ '' not declared'')))
           | Some mc \<Rightarrow> Inr mc))"

text \<open>\<^verbatim>\<open>metatype< T >()\<close>, through \<^verbatim>\<open>metatype( typeid( T ) )\<close>.\<close>

definition Reflector_metatype_of :: "platform \<Rightarrow> cpp_type \<Rightarrow> Reflector \<Rightarrow> failure + nat" where
  "Reflector_metatype_of pf T r = Reflector_metatype pf (typeid_name pf T) r"

definition addPendingProperty :: "string \<Rightarrow> nat \<Rightarrow> Reflector \<Rightarrow> Reflector" where
  "addPendingProperty tname prop r = r\<lparr>m_pendingProperties := m_pendingProperties r @ [(tname, prop)]\<rparr>"

text \<open>
  \<^verbatim>\<open>updatePendingProperties( mc )\<close>: every entry under the name of \<open>mc\<close>'s type gets
  \<open>mc\<close> as its metatype, and these entries are erased.
\<close>

definition updatePendingProperties :: "nat \<Rightarrow> Reflector \<Rightarrow> failure + Reflector" where
  "updatePendingProperties mc r =
     (case heap r mc of
        None \<Rightarrow> Inl InvalidPointer
      | Some obj \<Rightarrow>
          Inr (r\<lparr>property_metatype :=
                   fold (\<lambda>it pm. pm(snd it := Some mc))
                     (filter (\<lambda>it. fst it = typeInfo_name obj) (m_pendingProperties r))
                     (property_metatype r),
                 m_pendingProperties :=
                   filter (\<lambda>it. fst it \<noteq> typeInfo_name obj) (m_pendingProperties r)\<rparr>))"

text \<open>\<^verbatim>\<open>mc->pointerMetatype( ptr_mc )\<close>\<close>

definition set_pointerMetatype :: "nat \<Rightarrow> nat \<Rightarrow> Reflector \<Rightarrow> failure + Reflector" where
  "set_pointerMetatype mc ptr_mc r =
     (case heap r mc of
        None \<Rightarrow> Inl InvalidPointer
      | Some obj \<Rightarrow> Inr (r\<lparr>heap := (heap r)(mc \<mapsto> obj\<lparr>pointerMetatype := Some ptr_mc\<rparr>)\<rparr>))"

definition internal_declare :: "platform \<Rightarrow> cpp_type \<Rightarrow> nat \<Rightarrow> Reflector \<Rightarrow> failure + Reflector" where
  "internal_declare pf T mc r =
     (case (if meta_types r (typeid_name pf T) = None
            then Inr (new_metatype
                   \<lparr>mt_class = MetaPointerType, typeInfo_name = typeid_name pf (T_pointer T),
                    pointerMetatype = None, pointee = Some mc, mt_annotations = []\<rparr> r)
            else (case Reflector_metatype_of pf (T_pointer T) r of
                    Inl e \<Rightarrow> Inl e
                  | Inr p \<Rightarrow> Inr (p, r))) of
        Inl e \<Rightarrow> Inl e
      | Inr (ptr_mc, r1) \<Rightarrow>
          (let r2 = r1\<lparr>meta_types := (meta_types r1)(typeid_name pf T \<mapsto> mc)\<rparr>;
               r3 = r2\<lparr>meta_types := (meta_types r2)(typeid_name pf (T_pointer T) \<mapsto> ptr_mc)\<rparr>
           in case set_pointerMetatype mc ptr_mc r3 of
                Inl e \<Rightarrow> Inl e
              | Inr r4 \<Rightarrow>
                  (case updatePendingProperties mc r4 of
                     Inl e \<Rightarrow> Inl e
                   | Inr r5 \<Rightarrow> updatePendingProperties ptr_mc r5)))"

text \<open>
  \<^verbatim>\<open>dynamic_cast< X * >( &m )\<close>: the address when the object at it is of a class
  accepted by \<open>target\<close>, null otherwise. The result is dereferenced at once.
\<close>

definition dynamic_cast :: "(metatype_class \<Rightarrow> bool) \<Rightarrow> nat \<Rightarrow> Reflector \<Rightarrow> failure + nat" where
  "dynamic_cast target m r =
     (case heap r m of
        None \<Rightarrow> Inl InvalidPointer
      | Some obj \<Rightarrow> if target (mt_class obj) then Inr m else Inl InvalidPointer)"

text \<open>
  \<^verbatim>\<open>declare< C >( annotations )\<close>. \<^verbatim>\<open>Metacollection< C >\<close> derives from
  \<^verbatim>\<open>CustomMetaclass< C >\<close>, so the cast accepts both.
\<close>

definition Reflector_declare ::
  "platform \<Rightarrow> cpp_type \<Rightarrow> Annotations \<Rightarrow> Reflector \<Rightarrow> failure + nat \<times> Reflector" where
  "Reflector_declare pf C annotations r =
     (if meta_types r (typeid_name pf C) \<noteq> None then
        (case Reflector_metatype_of pf C r of
           Inl e \<Rightarrow> Inl e
         | Inr m \<Rightarrow>
             (case dynamic_cast (\<lambda>k. k = CustomMetaclass C \<or> k = Metacollection C) m r of
                Inl e \<Rightarrow> Inl e
              | Inr mc \<Rightarrow> Inr (mc, r)))
      else
        (case new_metatype
                \<lparr>mt_class = CustomMetaclass C, typeInfo_name = typeid_name pf C,
                 pointerMetatype = None, pointee = None, mt_annotations = annotations\<rparr> r of
           (mc, r1) \<Rightarrow>
             (case internal_declare pf C mc r1 of
                Inl e \<Rightarrow> Inl e
              | Inr r2 \<Rightarrow> Inr (mc, r2))))"

definition Reflector_declareAbstract ::
  "platform \<Rightarrow> cpp_type \<Rightarrow> Annotations \<Rightarrow> Reflector \<Rightarrow> failure + nat \<times> Reflector" where
  "Reflector_declareAbstract pf C annotations r =
     (if meta_types r (typeid_name pf C) \<noteq> None then
        (case Reflector_metatype_of pf C r of
           Inl e \<Rightarrow> Inl e
         | Inr m \<Rightarrow>
             (case dynamic_cast (\<lambda>k. k = CustomMetaclass_abstract C) m r of
                Inl e \<Rightarrow> Inl e
              | Inr mc \<Rightarrow> Inr (mc, r)))
      else
        (case new_metatype
                \<lparr>mt_class = CustomMetaclass_abstract C, typeInfo_name = typeid_name pf C,
                 pointerMetatype = None, pointee = None, mt_annotations = annotations\<rparr> r of
           (mc, r1) \<Rightarrow>
             (case internal_declare pf C mc r1 of
                Inl e \<Rightarrow> Inl e
              | Inr r2 \<Rightarrow> Inr (mc, r2))))"

definition Reflector_declareCollection ::
  "platform \<Rightarrow> cpp_type \<Rightarrow> Annotations \<Rightarrow> Reflector \<Rightarrow> failure + nat \<times> Reflector" where
  "Reflector_declareCollection pf C annotations r =
     (if meta_types r (typeid_name pf C) \<noteq> None then
        (case Reflector_metatype_of pf C r of
           Inl e \<Rightarrow> Inl e
         | Inr m \<Rightarrow>
             (case dynamic_cast (\<lambda>k. k = Metacollection C) m r of
                Inl e \<Rightarrow> Inl e
              | Inr mc \<Rightarrow> Inr (mc, r)))
      else
        (case new_metatype
                \<lparr>mt_class = Metacollection C, typeInfo_name = typeid_name pf C,
                 pointerMetatype = None, pointee = None, mt_annotations = annotations\<rparr> r of
           (mc, r1) \<Rightarrow>
             (case internal_declare pf C mc r1 of
                Inl e \<Rightarrow> Inl e
              | Inr r2 \<Rightarrow> Inr (mc, r2))))"

text \<open>
  \<^verbatim>\<open>eraseMetatypes\<close>: every descriptor the map names is deleted, and the map is
  emptied.
\<close>

definition eraseMetatypes :: "Reflector \<Rightarrow> Reflector" where
  "eraseMetatypes r = r\<lparr>heap := heap r |` (- ran (meta_types r)), meta_types := Map.empty\<rparr>"

text \<open>
  \<^verbatim>\<open>register_defaults\<close>: ten calls
  \<^verbatim>\<open>internal_declare< T >( new MetaT() )\<close>, in this order.
\<close>

definition default_types :: "(cpp_type \<times> metatype_class) list" where
  "default_types =
     [(T_bool, MetaBool), (T_char, MetaChar), (T_short, MetaShort), (T_int, MetaInt),
      (T_long, MetaLong), (T_float, MetaFloat), (T_double, MetaDouble),
      (T_long_double, MetaLongDouble), (T_wchar_t, MetaWchar_t), (T_std_string, MetaString)]"

fun register_each :: "platform \<Rightarrow> (cpp_type \<times> metatype_class) list \<Rightarrow> Reflector \<Rightarrow> failure + Reflector" where
  "register_each pf [] r = Inr r"
| "register_each pf (tc # rest) r =
     (case new_metatype
             \<lparr>mt_class = snd tc, typeInfo_name = typeid_name pf (fst tc),
              pointerMetatype = None, pointee = None, mt_annotations = []\<rparr> r of
        (mc, r1) \<Rightarrow>
          (case internal_declare pf (fst tc) mc r1 of
             Inl e \<Rightarrow> Inl e
           | Inr r2 \<Rightarrow> register_each pf rest r2))"

definition register_defaults :: "platform \<Rightarrow> Reflector \<Rightarrow> failure + Reflector" where
  "register_defaults pf r = register_each pf default_types r"

definition Reflector_clear :: "platform \<Rightarrow> Reflector \<Rightarrow> failure + Reflector" where
  "Reflector_clear pf r =
     register_defaults pf
       (registerPrefixDecorator ''class''
         (registerPrefixDecorator ''struct''
           ((eraseMetatypes r)\<lparr>m_prefixDecorators := []\<rparr>)))"

text \<open>
  The constructor: the members are empty and \<^verbatim>\<open>clear()\<close> is called. The singleton is
  built on first use, when no descriptor and no property exists yet.
\<close>

definition Reflector_empty :: Reflector where
  "Reflector_empty =
     \<lparr>meta_types = Map.empty, m_prefixDecorators = [], m_pendingProperties = [],
      heap = Map.empty, next_address = 0, property_metatype = (\<lambda>p. None)\<rparr>"

definition Reflector_new :: "platform \<Rightarrow> failure + Reflector" where
  "Reflector_new pf = Reflector_clear pf Reflector_empty"

text \<open>
  What it is for a type to be registered with a descriptor of a given class: its name
  and the name of its pointer type are keys of the map, the descriptor is of that class
  and names the pointer descriptor, which points back to it.
\<close>

definition registered :: "platform \<Rightarrow> Reflector \<Rightarrow> cpp_type \<times> metatype_class \<Rightarrow> bool" where
  "registered pf r tc =
     (\<exists>mc p obj pobj.
        meta_types r (typeid_name pf (fst tc)) = Some mc \<and>
        meta_types r (typeid_name pf (T_pointer (fst tc))) = Some p \<and>
        heap r mc = Some obj \<and> mt_class obj = snd tc \<and> pointerMetatype obj = Some p \<and>
        heap r p = Some pobj \<and> mt_class pobj = MetaPointerType \<and> pointee pobj = Some mc \<and>
        mc < next_address r \<and> p < next_address r)"

text \<open>
  The state claim C10 describes: the two prefix decorators, every built-in type
  registered with its descriptor class, and the lookup of each and of its pointer type
  returning a descriptor.
\<close>

definition defaults_registered :: "platform \<Rightarrow> Reflector \<Rightarrow> bool" where
  "defaults_registered pf r =
     (m_prefixDecorators r = [''struct'', ''class''] \<and>
      list_all (\<lambda>tc. registered pf r tc \<and>
                  (\<exists>mc. Reflector_metatype_of pf (fst tc) r = Inr mc) \<and>
                  (\<exists>p. Reflector_metatype_of pf (T_pointer (fst tc)) r = Inr p))
        default_types)"

text \<open>
  Two example platforms for concrete runs. The first has the names GNU C++ gives the
  built-in types (\<^verbatim>\<open>b\<close>, \<^verbatim>\<open>c\<close>, ..., \<^verbatim>\<open>Ss\<close>), \<^verbatim>\<open>P\<close> in front for a
  pointer, and a demangler that knows two names. The second is a compiler of the third
  variant with the names Microsoft C++ gives: the type as written, a class with its
  \<^verbatim>\<open>class\<close> or \<^verbatim>\<open>struct\<close> keyword in front, \<^verbatim>\<open> *\<close> behind for a pointer.
\<close>

fun gnu_typeid_name :: "cpp_type \<Rightarrow> string" where
  "gnu_typeid_name T_bool = ''b''"
| "gnu_typeid_name T_char = ''c''"
| "gnu_typeid_name T_short = ''s''"
| "gnu_typeid_name T_int = ''i''"
| "gnu_typeid_name T_long = ''l''"
| "gnu_typeid_name T_float = ''f''"
| "gnu_typeid_name T_double = ''d''"
| "gnu_typeid_name T_long_double = ''e''"
| "gnu_typeid_name T_wchar_t = ''w''"
| "gnu_typeid_name T_std_string = ''Ss''"
| "gnu_typeid_name (T_class n) = n"
| "gnu_typeid_name (T_pointer t) = CHR ''P'' # gnu_typeid_name t"

definition example_platform :: platform where
  "example_platform =
     \<lparr>compiler = GNUG, typeid_name = gnu_typeid_name,
      cxa_demangle = (\<lambda>n. if n = ''5Point'' then Some ''Point'' else if n = ''i'' then Some ''int'' else None)\<rparr>"

fun msvc_typeid_name :: "cpp_type \<Rightarrow> string" where
  "msvc_typeid_name T_bool = ''bool''"
| "msvc_typeid_name T_char = ''char''"
| "msvc_typeid_name T_short = ''short''"
| "msvc_typeid_name T_int = ''int''"
| "msvc_typeid_name T_long = ''long''"
| "msvc_typeid_name T_float = ''float''"
| "msvc_typeid_name T_double = ''double''"
| "msvc_typeid_name T_long_double = ''long double''"
| "msvc_typeid_name T_wchar_t = ''wchar_t''"
| "msvc_typeid_name T_std_string =
     ''class std::basic_string<char,struct std::char_traits<char>,class std::allocator<char> >''"
| "msvc_typeid_name (T_class n) = n"
| "msvc_typeid_name (T_pointer t) = msvc_typeid_name t @ '' *''"

definition msvc_platform :: platform where
  "msvc_platform =
     \<lparr>compiler = OtherCompiler, typeid_name = msvc_typeid_name, cxa_demangle = (\<lambda>n. None)\<rparr>"
section \<open>Scanning loops on unterminated input\<close>

lemma pending_chars_advance: "pending_chars (advance r) \<subseteq> insert eof_char (pending_chars r)"
  by (cases "in_stream r") (auto simp: advance_def pending_chars_def)

lemma pending_chars_skipSpaces: "pending_chars (skipSpaces r) \<subseteq> insert eof_char (pending_chars r)"
proof (induction r rule: skipSpaces.induct)
  case (1 r)
  show ?case
  proof (cases "isSeparator r (currentChar r)")
    case True
    then have "skipSpaces r = skipSpaces (advance r)"
      by (subst skipSpaces.simps) simp
    with 1 True pending_chars_advance [of r] show ?thesis by auto
  next
    case False
    then have "skipSpaces r = r" by (subst skipSpaces.simps) simp
    then show ?thesis by auto
  qed
qed

lemma pending_chars_new: "pending_chars (JSONReader_new s) \<subseteq> insert eof_char (set s)"
  by (cases s) (auto simp: JSONReader_new_def advance_def pending_chars_def)

lemma objectBegin_loop_needs_brace:
  assumes "objectBegin_loop r acc = Some res"
  shows "CHR ''{'' \<in> pending_chars r"
proof (rule objectBegin_loop.raw_induct [where P = "\<lambda>r acc res. CHR ''{'' \<in> pending_chars r", OF _ assms])
  fix f :: "JSONReader \<Rightarrow> string \<Rightarrow> (string \<times> JSONReader) option" and r acc res
  assume IH: "\<And>r acc res. f r acc = Some res \<Longrightarrow> CHR ''{'' \<in> pending_chars r"
    and step: "(if currentChar r \<noteq> CHR ''{'' then f (advance r) (acc @ [currentChar r]) else Some (acc, r)) = Some res"
  show "CHR ''{'' \<in> pending_chars r"
  proof (cases "currentChar r = CHR ''{''")
    case True
    then show ?thesis by (simp add: pending_chars_def)
  next
    case False
    with step have "f (advance r) (acc @ [currentChar r]) = Some res" by simp
    then have "CHR ''{'' \<in> pending_chars (advance r)" by (rule IH)
    with pending_chars_advance [of r] show ?thesis by (auto simp: eof_char_def)
  qed
qed

lemma objectEnd_loop_needs_brace:
  assumes "objectEnd_loop r = Some res"
  shows "CHR ''}'' \<in> pending_chars r"
proof (rule objectEnd_loop.raw_induct [where P = "\<lambda>r res. CHR ''}'' \<in> pending_chars r", OF _ assms])
  fix f :: "JSONReader \<Rightarrow> JSONReader option" and r res
  assume IH: "\<And>r res. f r = Some res \<Longrightarrow> CHR ''}'' \<in> pending_chars r"
    and step: "(if \<not> fst (endObject r) then f (advance (snd (endObject r))) else Some (snd (endObject r))) = Some res"
  have sub: "pending_chars (skipSpaces r) \<subseteq> insert eof_char (pending_chars r)"
    by (rule pending_chars_skipSpaces)
  show "CHR ''}'' \<in> pending_chars r"
  proof (cases "fst (endObject r)")
    case True
    then have "CHR ''}'' \<in> pending_chars (skipSpaces r)"
      by (simp add: endObject_def Let_def pending_chars_def)
    with sub show ?thesis by (auto simp: eof_char_def)
  next
    case False
    with step have "f (advance (skipSpaces r)) = Some res" by (simp add: endObject_def Let_def)
    then have "CHR ''}'' \<in> pending_chars (advance (skipSpaces r))" by (rule IH)
    with pending_chars_advance [of "skipSpaces r"] sub show ?thesis by (auto simp: eof_char_def)
  qed
qed

lemma collectionEnd_loop_needs_bracket:
  assumes "collectionEnd_loop r = Some res"
  shows "CHR '']'' \<in> pending_chars r"
proof (rule collectionEnd_loop.raw_induct [where P = "\<lambda>r res. CHR '']'' \<in> pending_chars r", OF _ assms])
  fix f :: "JSONReader \<Rightarrow> JSONReader option" and r res
  assume IH: "\<And>r res. f r = Some res \<Longrightarrow> CHR '']'' \<in> pending_chars r"
    and step: "(if \<not> fst (endCollection r) then f (advance (snd (endCollection r))) else Some (snd (endCollection r))) = Some res"
  have sub: "pending_chars (skipSpaces r) \<subseteq> insert eof_char (pending_chars r)"
    by (rule pending_chars_skipSpaces)
  show "CHR '']'' \<in> pending_chars r"
  proof (cases "fst (endCollection r)")
    case True
    then have "CHR '']'' \<in> pending_chars (skipSpaces r)"
      by (simp add: endCollection_def Let_def pending_chars_def)
    with sub show ?thesis by (auto simp: eof_char_def)
  next
    case False
    with step have "f (advance (skipSpaces r)) = Some res" by (simp add: endCollection_def Let_def)
    then have "CHR '']'' \<in> pending_chars (advance (skipSpaces r))" by (rule IH)
    with pending_chars_advance [of "skipSpaces r"] sub show ?thesis by (auto simp: eof_char_def)
  qed
qed

lemma collectionBegin_loop_needs_bracket:
  assumes "collectionBegin_loop r = Some res"
  shows "CHR ''['' \<in> pending_chars r"
proof (rule collectionBegin_loop.raw_induct [where P = "\<lambda>r res. CHR ''['' \<in> pending_chars r", OF _ assms])
  fix f :: "JSONReader \<Rightarrow> JSONReader option" and r res
  assume IH: "\<And>r res. f r = Some res \<Longrightarrow> CHR ''['' \<in> pending_chars r"
    and step: "(if currentChar r \<noteq> CHR ''['' then f (advance r) else Some r) = Some res"
  show "CHR ''['' \<in> pending_chars r"
  proof (cases "currentChar r = CHR ''[''")
    case True
    then show ?thesis by (simp add: pending_chars_def)
  next
    case False
    with step have "f (advance r) = Some res" by simp
    then have "CHR ''['' \<in> pending_chars (advance r)" by (rule IH)
    with pending_chars_advance [of r] show ?thesis by (auto simp: eof_char_def)
  qed
qed

text \<open>
  Claim C9. On an input whose delimiter never appears, the reader's scan loops do not
  return: \<^verbatim>\<open>objectBegin\<close> without an opening brace, \<^verbatim>\<open>objectEnd\<close> without a
  closing brace and \<^verbatim>\<open>collectionEnd\<close> without a closing bracket run past the end of
  the stream forever. The reader gives no termination guarantee on unterminated input.
\<close>

theorem scan_loops_diverge:
  "(CHR ''{'' \<notin> set s \<longrightarrow> JSONReader_objectBegin (JSONReader_new s) = None) \<and>
   (CHR ''}'' \<notin> set s \<longrightarrow> JSONReader_objectEnd (JSONReader_new s) = None) \<and>
   (CHR '']'' \<notin> set s \<longrightarrow> JSONReader_collectionEnd (JSONReader_new s) = None)"
proof (intro conjI impI)
  assume no: "CHR ''{'' \<notin> set s"
  have "objectBegin_loop (skipSpaces (JSONReader_new s)) [] = None"
  proof (rule ccontr)
    assume "objectBegin_loop (skipSpaces (JSONReader_new s)) [] \<noteq> None"
    then obtain res where "objectBegin_loop (skipSpaces (JSONReader_new s)) [] = Some res" by auto
    then have "CHR ''{'' \<in> pending_chars (skipSpaces (JSONReader_new s))"
      by (rule objectBegin_loop_needs_brace)
    with pending_chars_skipSpaces [of "JSONReader_new s"] pending_chars_new [of s] no
    show False by (auto simp: eof_char_def)
  qed
  then show "JSONReader_objectBegin (JSONReader_new s) = None"
    by (simp add: JSONReader_objectBegin_def)
next
  assume no: "CHR ''}'' \<notin> set s"
  have "objectEnd_loop (JSONReader_new s) = None"
  proof (rule ccontr)
    assume "objectEnd_loop (JSONReader_new s) \<noteq> None"
    then obtain res where "objectEnd_loop (JSONReader_new s) = Some res" by auto
    then have "CHR ''}'' \<in> pending_chars (JSONReader_new s)"
      by (rule objectEnd_loop_needs_brace)
    with pending_chars_new [of s] no show False by (auto simp: eof_char_def)
  qed
  then show "JSONReader_objectEnd (JSONReader_new s) = None"
    by (simp add: JSONReader_objectEnd_def)
next
  assume no: "CHR '']'' \<notin> set s"
  have "collectionEnd_loop (JSONReader_new s) = None"
  proof (rule ccontr)
    assume "collectionEnd_loop (JSONReader_new s) \<noteq> None"
    then obtain res where "collectionEnd_loop (JSONReader_new s) = Some res" by auto
    then have "CHR '']'' \<in> pending_chars (JSONReader_new s)"
      by (rule collectionEnd_loop_needs_bracket)
    with pending_chars_new [of s] no show False by (auto simp: eof_char_def)
  qed
  then show "JSONReader_collectionEnd (JSONReader_new s) = None"
    by (simp add: JSONReader_collectionEnd_def)
qed

theorem scan_loops_diverge_witness:
  "CHR ''{'' \<notin> set ''Point'' \<and> JSONReader_objectBegin (JSONReader_new ''Point'') = None \<and>
   CHR ''}'' \<notin> set ''{ x: 1'' \<and> JSONReader_objectEnd (JSONReader_new ''{ x: 1'') = None \<and>
   CHR '']'' \<notin> set ''[ 1, 2'' \<and> JSONReader_collectionEnd (JSONReader_new ''[ 1, 2'') = None"
  using scan_loops_diverge [of "''Point''"] scan_loops_diverge [of "''{ x: 1''"]
    scan_loops_diverge [of "''[ 1, 2''"]
  by simp


text \<open>
  The other direction: where the delimiter is in the input, the loops return. So the
  missing delimiter is exactly what keeps them running.
\<close>

lemma skipSpaces_keeps:
  assumes "\<not> isspace c" "c \<noteq> CHR '',''" "c \<in> pending_chars r"
  shows "c \<in> pending_chars (skipSpaces r) \<and> length (in_stream (skipSpaces r)) \<le> length (in_stream r)"
  using assms(3)
proof (induction r rule: skipSpaces.induct)
  case (1 r)
  show ?case
  proof (cases "isSeparator r (currentChar r)")
    case True
    then have eq: "skipSpaces r = skipSpaces (advance r)"
      by (subst skipSpaces.simps) simp
    from True assms have "c \<noteq> currentChar r" by (auto simp: isSeparator_def)
    with "1.prems" have "c \<in> set (in_stream r)" by (simp add: pending_chars_def)
    then have "c \<in> pending_chars (advance r)" "length (in_stream (advance r)) \<le> length (in_stream r)"
      by (cases "in_stream r"; auto simp: advance_def pending_chars_def)+
    with "1.IH" [OF True] eq show ?thesis by auto
  next
    case False
    then have "skipSpaces r = r" by (subst skipSpaces.simps) simp
    with "1.prems" show ?thesis by simp
  qed
qed

lemma objectEnd_loop_returns:
  "CHR ''}'' \<in> pending_chars r \<Longrightarrow> \<exists>r'. objectEnd_loop r = Some r'"
proof (induction "length (in_stream r)" arbitrary: r rule: less_induct)
  case less
  have k: "CHR ''}'' \<in> pending_chars (skipSpaces r)"
    "length (in_stream (skipSpaces r)) \<le> length (in_stream r)"
    using skipSpaces_keeps [of "CHR ''}''" r] less.prems by (simp_all add: isspace_def)
  show ?case
  proof (cases "currentChar (skipSpaces r) = CHR ''}''")
    case True
    then show ?thesis
      by (subst objectEnd_loop.simps) (simp add: endObject_def Let_def)
  next
    case False
    with k have m: "CHR ''}'' \<in> set (in_stream (skipSpaces r))" by (simp add: pending_chars_def)
    then have "CHR ''}'' \<in> pending_chars (advance (skipSpaces r))"
      "length (in_stream (advance (skipSpaces r))) < length (in_stream (skipSpaces r))"
      by (cases "in_stream (skipSpaces r)"; auto simp: advance_def pending_chars_def)+
    with k less.hyps [of "advance (skipSpaces r)"] obtain r' where
      "objectEnd_loop (advance (skipSpaces r)) = Some r'" by auto
    with False show ?thesis
      by (subst objectEnd_loop.simps) (simp add: endObject_def Let_def)
  qed
qed

lemma objectBegin_loop_returns:
  "CHR ''{'' \<in> pending_chars r \<Longrightarrow> \<exists>res. objectBegin_loop r acc = Some res"
proof (induction "length (in_stream r)" arbitrary: r acc rule: less_induct)
  case less
  show ?case
  proof (cases "currentChar r = CHR ''{''")
    case True
    then show ?thesis by (subst objectBegin_loop.simps) simp
  next
    case False
    with less.prems have "CHR ''{'' \<in> set (in_stream r)" by (simp add: pending_chars_def)
    then have "CHR ''{'' \<in> pending_chars (advance r)"
      "length (in_stream (advance r)) < length (in_stream r)"
      by (cases "in_stream r"; auto simp: advance_def pending_chars_def)+
    with less.hyps [of "advance r" "acc @ [currentChar r]"] obtain res where
      "objectBegin_loop (advance r) (acc @ [currentChar r]) = Some res" by auto
    with False show ?thesis by (subst objectBegin_loop.simps) simp
  qed
qed

lemma collectionEnd_loop_returns:
  "CHR '']'' \<in> pending_chars r \<Longrightarrow> \<exists>r'. collectionEnd_loop r = Some r'"
proof (induction "length (in_stream r)" arbitrary: r rule: less_induct)
  case less
  have k: "CHR '']'' \<in> pending_chars (skipSpaces r)"
    "length (in_stream (skipSpaces r)) \<le> length (in_stream r)"
    using skipSpaces_keeps [of "CHR '']''" r] less.prems by (simp_all add: isspace_def)
  show ?case
  proof (cases "currentChar (skipSpaces r) = CHR '']''")
    case True
    then show ?thesis
      by (subst collectionEnd_loop.simps) (simp add: endCollection_def Let_def)
  next
    case False
    with k have m: "CHR '']'' \<in> set (in_stream (skipSpaces r))" by (simp add: pending_chars_def)
    then have "CHR '']'' \<in> pending_chars (advance (skipSpaces r))"
      "length (in_stream (advance (skipSpaces r))) < length (in_stream (skipSpaces r))"
      by (cases "in_stream (skipSpaces r)"; auto simp: advance_def pending_chars_def)+
    with k less.hyps [of "advance (skipSpaces r)"] obtain r' where
      "collectionEnd_loop (advance (skipSpaces r)) = Some r'" by auto
    with False show ?thesis
      by (subst collectionEnd_loop.simps) (simp add: endCollection_def Let_def)
  qed
qed

lemma pending_chars_new_contains: "set s \<subseteq> pending_chars (JSONReader_new s)"
  by (cases s) (auto simp: JSONReader_new_def advance_def pending_chars_def)

lemma scan_loops_return:
  "(CHR ''{'' \<in> set s \<longrightarrow> JSONReader_objectBegin (JSONReader_new s) \<noteq> None) \<and>
   (CHR ''}'' \<in> set s \<longrightarrow> JSONReader_objectEnd (JSONReader_new s) \<noteq> None) \<and>
   (CHR '']'' \<in> set s \<longrightarrow> JSONReader_collectionEnd (JSONReader_new s) \<noteq> None)"
proof (intro conjI impI)
  assume "CHR ''{'' \<in> set s"
  with pending_chars_new_contains [of s] have "CHR ''{'' \<in> pending_chars (JSONReader_new s)" by auto
  with skipSpaces_keeps [of "CHR ''{''" "JSONReader_new s"]
  have "CHR ''{'' \<in> pending_chars (skipSpaces (JSONReader_new s))" by (simp add: isspace_def)
  from objectBegin_loop_returns [OF this, of "[]"]
  show "JSONReader_objectBegin (JSONReader_new s) \<noteq> None"
    by (auto simp: JSONReader_objectBegin_def)
next
  assume "CHR ''}'' \<in> set s"
  with pending_chars_new_contains [of s] have "CHR ''}'' \<in> pending_chars (JSONReader_new s)" by auto
  from objectEnd_loop_returns [OF this]
  show "JSONReader_objectEnd (JSONReader_new s) \<noteq> None"
    by (auto simp: JSONReader_objectEnd_def)
next
  assume "CHR '']'' \<in> set s"
  with pending_chars_new_contains [of s] have "CHR '']'' \<in> pending_chars (JSONReader_new s)" by auto
  from collectionEnd_loop_returns [OF this]
  show "JSONReader_collectionEnd (JSONReader_new s) \<noteq> None"
    by (auto simp: JSONReader_collectionEnd_def)
qed

section \<open>The reference marker on reading\<close>

lemmas reader_eval = JSONReader_new_def advance_def dquote_def ch_nl_def ch_tab_def backslash_def
  eof_char_def isSeparator_def isspace_def getToken_def getString_def getString_loop.simps
  getToken_loop.simps skipSpaces.simps skipColon.simps Let_def emit_def

text \<open>
  Once the name token is \<^verbatim>\<open>$ref\<close>, the call neither looks at the descriptor or the
  instance nor changes the object store: the id is read and dropped.
\<close>

lemma readProperty_ref:
  assumes "getToken (fst st) = Some (Inr (''$ref'', r1))"
  shows "readProperty mt instance st =
     (case getToken (skipColon r1) of
        None \<Rightarrow> None
      | Some (Inl e) \<Rightarrow> Some (Inl e)
      | Some (Inr (ref, r3)) \<Rightarrow> Some (Inr (AnyInt 0, r3, snd st)))"
  using assms by (simp add: readProperty_def Let_def)

text \<open>
  Claim C1 asks that reading a \<^verbatim>\<open>$ref\<close> marker leaves the target pointer property
  pointing at the instance already rebuilt under that id. The code does not: on the
  text \<^verbatim>\<open>"$ref": "0"\<close> followed by the closing brace, \<^verbatim>\<open>readProperty\<close> returns
  \<^verbatim>\<open>0\<close> with the object store exactly as it was, for every store, descriptor and
  target instance.
\<close>

theorem readProperty_ref_not_relinked:
  "readProperty mt instance
     (JSONReader_new ([dquote] @ ''$ref'' @ [dquote] @ '': '' @ [dquote] @ ''0'' @ [dquote, ch_nl] @ ''}''), h)
   = Some (Inr (AnyInt 0, \<lparr>in_stream = ''}'', currentChar = ch_nl\<rparr>, h))"
  by (simp add: readProperty_def reader_eval)

text \<open>
  An object whose body is the marker, read for a null pointer: the result is an
  instance created by the call, whatever instance was read under the id before. Here the
  object store is the number of instances created so far.
\<close>

lemma readObject_ref_creates_instance:
  "readObject (\<lambda>name (h::nat). Inr (Suc h, Suc h)) mt None
     (JSONReader_new (''Sample {'' @ [ch_nl, ch_tab, dquote] @ ''$ref'' @ [dquote] @ '': '' @
        [dquote] @ ''0'' @ [dquote, ch_nl] @ ''}''), h)
   = Some (Inr (AnyPtr (Some (Suc h)), JSONReader_new [], Suc h))"
  by (simp add: readObject_def JSONReader_objectBegin_def objectBegin_loop.simps trim_def
      readObject_loop.simps endObject_def readProperty_def JSONReader_objectEnd_def
      objectEnd_loop.simps reader_eval)

section \<open>Reading a collection\<close>

text \<open>
  What was in the collection before the call is still there afterwards, in front of the
  elements read.
\<close>

lemma fromStr_loop_keeps:
  "fromStr_loop ef ac parser collection = Inr c \<Longrightarrow>
     take (length collection) c = collection \<and> length c = length collection + length parser"
proof (induction parser arbitrary: collection)
  case Nil
  then show ?case by simp
next
  case (Cons it rest)
  from Cons.prems obtain modv x where
    "fromStr_loop ef ac rest (collection @ [x]) = Inr c"
    by (auto split: sum.splits option.splits)
  from Cons.IH [OF this] show ?case
    by (auto simp: take_Suc_conv_app_nth dest: arg_cong [where f = "take (length collection)"])
qed

lemma fromStr_loop_result:
  "fromStr_loop ef ac parser collection = Inr c \<Longrightarrow>
     c = collection @ map (\<lambda>it. the (ac (projr (ef (snd it))))) parser"
proof (induction parser arbitrary: collection)
  case Nil
  then show ?case by simp
next
  case (Cons it rest)
  from Cons.prems obtain modv x where
    e: "ef (snd it) = Inr modv" and a: "ac modv = Some x"
    and r: "fromStr_loop ef ac rest (collection @ [x]) = Inr c"
    by (auto split: sum.splits option.splits)
  from Cons.IH [OF r] e a show ?case by simp
qed

text \<open>
  Claim C2 asks that decoding first clears the target collection, so that it then holds
  exactly the decoded elements whatever it held before. The code does not clear: a
  collection of strings holding \<^verbatim>\<open>old\<close>, given the two elements \<^verbatim>\<open>a\<close> and
  \<^verbatim>\<open>b\<close>, ends as \<^verbatim>\<open>old, a, b\<close>. The decoded elements do arrive in input order.
\<close>

theorem fromStr_keeps_prior_contents:
  "Metacollection_fromStr (\<lambda>s. Inr (AnyString s)) (\<lambda>a. case a of AnyString s \<Rightarrow> Some s | _ \<Rightarrow> None)
     [(''0'', ''a''), (''1'', ''b'')] [''old'']
   = Inr (AnyEmpty, [''old'', ''a'', ''b''])"
  by (simp add: Metacollection_fromStr_def)

section \<open>Escaping round trip\<close>

lemma hexDigit_hexChar: "n < 16 \<Longrightarrow> hexDigit (hexChar n) = Some n"
  by (simp add: hexDigit_def hexChar_def Let_def)

lemma hexDigit_zero: "hexDigit (CHR ''0'') = Some 0"
  by (simp add: hexDigit_def)

lemma hex4_of_byte:
  "hex4 (CHR ''0'') (CHR ''0'') (hexChar ((of_char c :: nat) div 16)) (hexChar ((of_char c :: nat) mod 16))
     = Some (of_char c)"
proof -
  have lt: "(of_char c :: nat) < 256" by (rule nat_of_char_less_256)
  then have hi: "(of_char c :: nat) div 16 < 16" by (simp add: less_mult_imp_div_less)
  have lo: "(of_char c :: nat) mod 16 < 16" by simp
  show ?thesis
    by (simp add: hex4_def hexDigit_zero hexDigit_hexChar [OF hi] hexDigit_hexChar [OF lo])
qed

lemma removeEscapeSeq_u:
  "removeEscapeSeq (backslash # CHR ''u'' # h1 # h2 # h3 # h4 # rest) =
     (case hex4 h1 h2 h3 h4 of None \<Rightarrow> Inl HexGroupNotModelled
      | Some n \<Rightarrow> emit (char_of n) (removeEscapeSeq rest))"
  by simp

lemma removeEscapeSeq_addEscapeChar:
  "removeEscapeSeq (addEscapeChar c @ rest) = emit c (removeEscapeSeq rest)"
proof -
  consider (named) "c = dquote \<or> c = backslash \<or> c = ch_bs \<or> c = ch_ff \<or> c = ch_nl \<or> c = ch_cr \<or> c = ch_tab"
    | (hex) "\<not> (c = dquote \<or> c = backslash \<or> c = ch_bs \<or> c = ch_ff \<or> c = ch_nl \<or> c = ch_cr \<or> c = ch_tab)"
        "(of_char c :: nat) < 32 \<or> 127 \<le> (of_char c :: nat)"
    | (plain) "\<not> (c = dquote \<or> c = backslash \<or> c = ch_bs \<or> c = ch_ff \<or> c = ch_nl \<or> c = ch_cr \<or> c = ch_tab)"
        "\<not> ((of_char c :: nat) < 32 \<or> 127 \<le> (of_char c :: nat))"
    by blast
  then show ?thesis
  proof cases
    case named
    then show ?thesis
      by (auto simp: addEscapeChar_def dquote_def backslash_def ch_bs_def ch_ff_def ch_nl_def
          ch_cr_def ch_tab_def)
  next
    case hex
    have "addEscapeChar c @ rest =
        backslash # CHR ''u'' # CHR ''0'' # CHR ''0'' #
        hexChar ((of_char c :: nat) div 16) # hexChar ((of_char c :: nat) mod 16) # rest"
      using hex by (simp add: addEscapeChar_def)
    then show ?thesis
      by (simp only: removeEscapeSeq_u hex4_of_byte option.case char_of_char)
  next
    case plain
    then have "addEscapeChar c = [c]" by (simp add: addEscapeChar_def)
    moreover from plain have "c \<noteq> backslash" by simp
    ultimately show ?thesis by simp
  qed
qed

lemma removeEscapeSeq_addEscapeSeq: "removeEscapeSeq (addEscapeSeq s) = Inr s"
proof (induction s)
  case Nil
  show ?case by (simp add: addEscapeSeq_def)
next
  case (Cons c s)
  have "addEscapeSeq (c # s) = addEscapeChar c @ addEscapeSeq s"
    by (simp add: addEscapeSeq_def)
  then show ?case
    by (simp add: removeEscapeSeq_addEscapeChar Cons.IH emit_def)
qed

lemma getString_loop_plain:
  "\<forall>c\<in>set xs. c \<noteq> dquote \<and> c \<noteq> backslash \<Longrightarrow>
     getString_loop \<lparr>in_stream = tl (xs @ y # ys), currentChar = hd (xs @ y # ys)\<rparr> acc =
     getString_loop \<lparr>in_stream = ys, currentChar = y\<rparr> (acc @ xs)"
proof (induction xs arbitrary: acc)
  case Nil
  show ?case by simp
next
  case (Cons x xs)
  have "getString_loop \<lparr>in_stream = tl ((x # xs) @ y # ys), currentChar = hd ((x # xs) @ y # ys)\<rparr> acc =
      getString_loop \<lparr>in_stream = tl (xs @ y # ys), currentChar = hd (xs @ y # ys)\<rparr> (acc @ [x])"
    using Cons.prems
    by (subst getString_loop.simps) (cases xs; simp add: advance_def)
  with Cons.IH [of "acc @ [x]"] Cons.prems show ?case by simp
qed

lemma getString_loop_escape:
  "getString_loop \<lparr>in_stream = e # y # ys, currentChar = backslash\<rparr> acc =
     getString_loop \<lparr>in_stream = ys, currentChar = y\<rparr> (acc @ [backslash, e])"
  by (subst getString_loop.simps) (simp add: advance_def backslash_def dquote_def)

lemma of_char_hexChar:
  "n < 16 \<Longrightarrow> (of_char (hexChar n) :: nat) = (if n < 10 then 48 + n else 87 + n)"
  by (simp add: hexChar_def)

lemma hexChar_plain:
  assumes "n < 16"
  shows "hexChar n \<noteq> dquote \<and> hexChar n \<noteq> backslash"
proof -
  have "(of_char (hexChar n) :: nat) \<noteq> of_char dquote"
    using assms by (simp add: of_char_hexChar dquote_def)
  moreover have "(of_char (hexChar n) :: nat) \<noteq> of_char backslash"
    using assms by (simp add: of_char_hexChar backslash_def)
  ultimately show ?thesis by auto
qed

lemma getString_loop_addEscapeChar:
  "getString_loop \<lparr>in_stream = tl (addEscapeChar c @ y # ys), currentChar = hd (addEscapeChar c @ y # ys)\<rparr> acc =
     getString_loop \<lparr>in_stream = ys, currentChar = y\<rparr> (acc @ addEscapeChar c)"
proof -
  have "(\<exists>e. addEscapeChar c = [backslash, e]) \<or>
      addEscapeChar c = [backslash, CHR ''u''] @
        [CHR ''0'', CHR ''0'', hexChar ((of_char c :: nat) div 16), hexChar ((of_char c :: nat) mod 16)] \<or>
      (addEscapeChar c = [c] \<and> c \<noteq> dquote \<and> c \<noteq> backslash)"
    by (simp add: addEscapeChar_def)
  then consider (named) e where "addEscapeChar c = [backslash, e]"
    | (hex) "addEscapeChar c = [backslash, CHR ''u''] @
        [CHR ''0'', CHR ''0'', hexChar ((of_char c :: nat) div 16), hexChar ((of_char c :: nat) mod 16)]"
    | (plain) "addEscapeChar c = [c]" "c \<noteq> dquote" "c \<noteq> backslash"
    by blast
  then show ?thesis
  proof cases
    case named
    then show ?thesis by (simp add: getString_loop_escape)
  next
    case hex
    let ?ds = "[CHR ''0'', CHR ''0'', hexChar ((of_char c :: nat) div 16), hexChar ((of_char c :: nat) mod 16)]"
    have lt: "(of_char c :: nat) < 256" by (rule nat_of_char_less_256)
    then have hi: "(of_char c :: nat) div 16 < 16" by (simp add: less_mult_imp_div_less)
    have lo: "(of_char c :: nat) mod 16 < 16" by simp
    have pl: "\<forall>d\<in>set ?ds. d \<noteq> dquote \<and> d \<noteq> backslash"
      using hexChar_plain [OF hi] hexChar_plain [OF lo] by (simp add: dquote_def backslash_def)
    have "getString_loop \<lparr>in_stream = tl (addEscapeChar c @ y # ys), currentChar = hd (addEscapeChar c @ y # ys)\<rparr> acc =
        getString_loop \<lparr>in_stream = tl (?ds @ y # ys), currentChar = hd (?ds @ y # ys)\<rparr>
          (acc @ [backslash, CHR ''u''])"
      unfolding hex by (simp add: getString_loop_escape)
    also have "\<dots> = getString_loop \<lparr>in_stream = ys, currentChar = y\<rparr> ((acc @ [backslash, CHR ''u'']) @ ?ds)"
      using pl by (rule getString_loop_plain)
    finally show ?thesis unfolding hex by simp
  next
    case plain
    with getString_loop_plain [of "[c]" y ys acc] show ?thesis by simp
  qed
qed

lemma getString_loop_addEscapeSeq:
  "getString_loop \<lparr>in_stream = tl (addEscapeSeq s @ y # ys), currentChar = hd (addEscapeSeq s @ y # ys)\<rparr> acc =
     getString_loop \<lparr>in_stream = ys, currentChar = y\<rparr> (acc @ addEscapeSeq s)"
proof (induction s arbitrary: acc)
  case Nil
  show ?case by (simp add: addEscapeSeq_def)
next
  case (Cons c s)
  have ne: "addEscapeChar c \<noteq> []" by (simp add: addEscapeChar_def)
  have split: "addEscapeSeq (c # s) = addEscapeChar c @ addEscapeSeq s"
    by (simp add: addEscapeSeq_def)
  obtain z zs where z: "addEscapeSeq s @ y # ys = z # zs"
    by (cases "addEscapeSeq s @ y # ys") auto
  have "getString_loop \<lparr>in_stream = tl (addEscapeSeq (c # s) @ y # ys),
          currentChar = hd (addEscapeSeq (c # s) @ y # ys)\<rparr> acc =
      getString_loop \<lparr>in_stream = tl (addEscapeChar c @ z # zs), currentChar = hd (addEscapeChar c @ z # zs)\<rparr> acc"
    by (simp add: split z)
  also have "\<dots> = getString_loop \<lparr>in_stream = zs, currentChar = z\<rparr> (acc @ addEscapeChar c)"
    by (rule getString_loop_addEscapeChar)
  also have "\<dots> = getString_loop \<lparr>in_stream = tl (addEscapeSeq s @ y # ys),
      currentChar = hd (addEscapeSeq s @ y # ys)\<rparr> (acc @ addEscapeChar c)"
    by (simp add: z)
  also have "\<dots> = getString_loop \<lparr>in_stream = ys, currentChar = y\<rparr> ((acc @ addEscapeChar c) @ addEscapeSeq s)"
    by (rule Cons.IH)
  finally show ?case by (simp add: split)
qed

lemma getString_written:
  "getString \<lparr>in_stream = addEscapeSeq s @ dquote # rest, currentChar = dquote\<rparr> =
     Some (Inr (s, JSONReader_new rest))"
proof -
  have adv: "advance \<lparr>in_stream = addEscapeSeq s @ dquote # rest, currentChar = dquote\<rparr> =
      \<lparr>in_stream = tl (addEscapeSeq s @ dquote # rest), currentChar = hd (addEscapeSeq s @ dquote # rest)\<rparr>"
    by (cases "addEscapeSeq s") (simp_all add: advance_def)
  have "getString_loop \<lparr>in_stream = rest, currentChar = dquote\<rparr> (addEscapeSeq s) =
      Some (addEscapeSeq s, \<lparr>in_stream = rest, currentChar = dquote\<rparr>)"
    by (subst getString_loop.simps) simp
  with getString_loop_addEscapeSeq [of s dquote rest "[]"]
  have "getString_loop (advance \<lparr>in_stream = addEscapeSeq s @ dquote # rest, currentChar = dquote\<rparr>) [] =
      Some (addEscapeSeq s, \<lparr>in_stream = rest, currentChar = dquote\<rparr>)"
    by (simp add: adv)
  moreover have "advance \<lparr>in_stream = rest, currentChar = dquote\<rparr> = JSONReader_new rest"
    by (cases rest) (simp_all add: JSONReader_new_def advance_def)
  ultimately show ?thesis
    by (simp add: getString_def removeEscapeSeq_addEscapeSeq)
qed

text \<open>
  Claim C4. For every string, unescaping the escaped string gives the string back, byte
  for byte: \<^verbatim>\<open>removeEscapeSeq\<close> inverts \<^verbatim>\<open>addEscapeSeq\<close>, and never fails on what it
  wrote. And the reader, on what \<^verbatim>\<open>writeString\<close> wrote, reads that string as its
  next token and stands behind the closing quote, whatever follows.
\<close>

theorem string_round_trip:
  "removeEscapeSeq (addEscapeSeq s) = Inr s \<and>
   getToken (JSONReader_new (m_stream (writeString s (JSONWriter_new [] nl cnl)) @ rest)) =
     Some (Inr (s, JSONReader_new rest))"
proof
  show "removeEscapeSeq (addEscapeSeq s) = Inr s" by (rule removeEscapeSeq_addEscapeSeq)
next
  have "JSONReader_new (m_stream (writeString s (JSONWriter_new [] nl cnl)) @ rest) =
      \<lparr>in_stream = addEscapeSeq s @ dquote # rest, currentChar = dquote\<rparr>"
    by (simp add: writeString_def put_def JSONWriter_new_def JSONReader_new_def advance_def)
  then show "getToken (JSONReader_new (m_stream (writeString s (JSONWriter_new [] nl cnl)) @ rest)) =
      Some (Inr (s, JSONReader_new rest))"
    by (simp add: getToken_def isSeparator_def isspace_def dquote_def getString_written [unfolded dquote_def])
qed

section \<open>An object without properties\<close>

lemma empty_object_output:
  "m_stream (JSONWriter_objectEnd typeName (JSONWriter_objectBegin typeName w)) =
     m_stream w @ typeName @ '' {'' @ [ch_nl] @ [ch_nl] @ replicate (nat (indentLevel w)) ch_tab @ ''}''"
  by (simp add: JSONWriter_objectEnd_def JSONWriter_objectBegin_def put_def indent_def)

text \<open>
  Claim C5 as stated, that an object without properties is written as the type name, a
  space, the opening brace, one newline and the closing brace, fails: for the type name
  \<^verbatim>\<open>Point\<close> a fresh writer does not produce that text.
\<close>

theorem empty_object_counterexample:
  "m_stream (JSONWriter_objectEnd ''Point'' (JSONWriter_objectBegin ''Point'' (JSONWriter_new [] False False)))
     \<noteq> ''Point {'' @ [ch_nl] @ ''}''"
  by (simp add: JSONWriter_objectEnd_def JSONWriter_objectBegin_def put_def indent_def
      JSONWriter_new_def ch_nl_def)

text \<open>
  Claim C5, amended. On a fresh writer the begin marker directly followed by the end
  marker is the type name, a space, the opening brace, two newlines and the closing
  brace: \<^verbatim>\<open>objectBegin\<close> ends its line and \<^verbatim>\<open>objectEnd\<close> starts a new one. Both
  markers are written and nothing else.
\<close>

theorem empty_object_top_level:
  "m_stream (JSONWriter_objectEnd typeName (JSONWriter_objectBegin typeName (JSONWriter_new [] nl cnl))) =
     typeName @ '' {'' @ [ch_nl, ch_nl] @ ''}''"
  by (simp add: JSONWriter_objectEnd_def JSONWriter_objectBegin_def put_def indent_def
      JSONWriter_new_def)

text \<open>
  With one integer property the same calls give the one-property text of the spec:
  the name, the brace, a newline, a tab, the property, a newline and the closing brace.
\<close>

lemma one_property_object:
  "m_stream (JSONWriter_objectEnd typeName
       (propertyEnd (writeInt numToStr 23 (propertyBegin ''count''
          (JSONWriter_objectBegin typeName (JSONWriter_new [] nl cnl)))))) =
     typeName @ '' {'' @ [ch_nl, ch_tab, dquote] @ ''count'' @ [dquote] @ '': '' @ numToStr 23 @ [ch_nl] @ ''}''"
  by (simp add: JSONWriter_objectEnd_def JSONWriter_objectBegin_def put_def indent_def
      JSONWriter_new_def propertyBegin_def propertyEnd_def writeInt_def Let_def)

section \<open>Property modes\<close>

text \<open>
  A property with a setter bound is writable, and \<^verbatim>\<open>set\<close> calls the setter.
\<close>

lemma set_writable_calls_setter:
  "isWritable (setter (Some f) (TypedProperty_new tn dm ca ta)) \<and>
   (ca val = Some v \<longrightarrow>
      TypedProperty_set (setter (Some f) (TypedProperty_new tn dm ca ta)) instance val = Inr (f instance v))"
  by (simp add: TypedProperty_set_def isWritable_def setter_def setMode_def internal_set_def
      TypedProperty_new_def Writable_def)

text \<open>
  Claim C6. \<^verbatim>\<open>set\<close> on a property whose Writable bit is not set raises nothing and
  returns the instance as it was, for every instance and value. A property to which
  only a getter was bound is readable and not writable, so \<^verbatim>\<open>set\<close> on it is such a
  no-op.
\<close>

theorem set_not_writable_noop:
  "(\<not> isWritable p \<longrightarrow> TypedProperty_set p instance val = Inr instance) \<and>
   isReadable (getter (Some g) (TypedProperty_new tn dm ca ta)) \<and>
   \<not> isWritable (getter (Some g) (TypedProperty_new tn dm ca ta)) \<and>
   TypedProperty_set (getter (Some g) (TypedProperty_new tn dm ca ta)) instance val = Inr instance"
  by (simp add: TypedProperty_set_def isWritable_def isReadable_def getter_def setMode_def
      TypedProperty_new_def Readable_def Writable_def)

theorem set_not_writable_noop_witness:
  "\<not> isWritable (getter (Some (\<lambda>c::int. c)) (TypedProperty_new ''int'' None (\<lambda>a. case a of AnyInt i \<Rightarrow> Some i | _ \<Rightarrow> None) AnyInt)) \<and>
   TypedProperty_set (getter (Some (\<lambda>c::int. c)) (TypedProperty_new ''int'' None (\<lambda>a. case a of AnyInt i \<Rightarrow> Some i | _ \<Rightarrow> None) AnyInt))
     (5::int) (AnyInt 7) = Inr 5 \<and>
   isReadable (getter (Some (\<lambda>c::int. c)) (TypedProperty_new ''int'' None (\<lambda>a. case a of AnyInt i \<Rightarrow> Some i | _ \<Rightarrow> None) AnyInt))"
  using set_not_writable_noop [of "getter (Some (\<lambda>c::int. c)) (TypedProperty_new ''int'' None (\<lambda>a. case a of AnyInt i \<Rightarrow> Some i | _ \<Rightarrow> None) AnyInt)"
      "5::int" "AnyInt 7" "\<lambda>c::int. c" "''int''" None "\<lambda>a. case a of AnyInt i \<Rightarrow> Some i | _ \<Rightarrow> None" AnyInt]
  by simp

section \<open>The registry\<close>

lemma internal_declare_fresh:
  assumes "meta_types r (typeid_name pf T) = None" "heap r mc = Some obj" "mc \<noteq> next_address r"
  shows "internal_declare pf T mc r =
     Inr (r\<lparr>next_address := Suc (next_address r),
            meta_types := (meta_types r)
              (typeid_name pf T \<mapsto> mc, typeid_name pf (T_pointer T) \<mapsto> next_address r),
            heap := (heap r)
              (next_address r \<mapsto>
                 \<lparr>mt_class = MetaPointerType, typeInfo_name = typeid_name pf (T_pointer T),
                  pointerMetatype = None, pointee = Some mc, mt_annotations = []\<rparr>,
               mc \<mapsto> obj\<lparr>pointerMetatype := Some (next_address r)\<rparr>),
            property_metatype :=
              fold (\<lambda>it pm. pm(snd it \<mapsto> next_address r))
                (filter (\<lambda>x. fst x \<noteq> typeInfo_name obj \<and> fst x = typeid_name pf (T_pointer T))
                   (m_pendingProperties r))
                (fold (\<lambda>it pm. pm(snd it \<mapsto> mc))
                   (filter (\<lambda>it. fst it = typeInfo_name obj) (m_pendingProperties r))
                   (property_metatype r)),
            m_pendingProperties :=
              filter (\<lambda>x. fst x \<noteq> typeInfo_name obj \<and> fst x \<noteq> typeid_name pf (T_pointer T))
                (m_pendingProperties r)\<rparr>)"
  using assms
  by (simp add: internal_declare_def new_metatype_def set_pointerMetatype_def
      updatePendingProperties_def Let_def)

lemma fold_setMetatype:
  "fold (\<lambda>it pm. pm(snd it \<mapsto> v)) xs pm p = (if p \<in> snd ` set xs then Some v else pm p)"
  by (induction xs arbitrary: pm) auto

lemma declare_fresh:
  assumes "meta_types r (typeid_name pf C) = None"
  shows "Reflector_declare pf C ann r =
     Inr (next_address r,
       r\<lparr>next_address := Suc (Suc (next_address r)),
         meta_types := (meta_types r)
           (typeid_name pf C \<mapsto> next_address r, typeid_name pf (T_pointer C) \<mapsto> Suc (next_address r)),
         heap := (heap r)
           (Suc (next_address r) \<mapsto>
              \<lparr>mt_class = MetaPointerType, typeInfo_name = typeid_name pf (T_pointer C),
               pointerMetatype = None, pointee = Some (next_address r), mt_annotations = []\<rparr>,
            next_address r \<mapsto>
              \<lparr>mt_class = CustomMetaclass C, typeInfo_name = typeid_name pf C,
               pointerMetatype = Some (Suc (next_address r)), pointee = None, mt_annotations = ann\<rparr>),
         property_metatype :=
           fold (\<lambda>it pm. pm(snd it \<mapsto> Suc (next_address r)))
             (filter (\<lambda>x. fst x \<noteq> typeid_name pf C \<and> fst x = typeid_name pf (T_pointer C))
                (m_pendingProperties r))
             (fold (\<lambda>it pm. pm(snd it \<mapsto> next_address r))
                (filter (\<lambda>it. fst it = typeid_name pf C) (m_pendingProperties r))
                (property_metatype r)),
         m_pendingProperties :=
           filter (\<lambda>x. fst x \<noteq> typeid_name pf C \<and> fst x \<noteq> typeid_name pf (T_pointer C))
             (m_pendingProperties r)\<rparr>)"
proof -
  let ?obj = "\<lparr>mt_class = CustomMetaclass C, typeInfo_name = typeid_name pf C,
      pointerMetatype = None, pointee = None, mt_annotations = ann\<rparr>"
  let ?r1 = "r\<lparr>heap := (heap r)(next_address r \<mapsto> ?obj), next_address := Suc (next_address r)\<rparr>"
  show ?thesis
    using assms
    by (simp add: Reflector_declare_def new_metatype_def
        internal_declare_fresh [where r = ?r1 and mc = "next_address r" and obj = ?obj])
qed



lemma pending_after_add:
  "m_pendingProperties (addPendingProperty t p r) = m_pendingProperties r @ [(t, p)]"
  "meta_types (addPendingProperty t p r) = meta_types r"
  "heap (addPendingProperty t p r) = heap r"
  "next_address (addPendingProperty t p r) = next_address r"
  by (simp_all add: addPendingProperty_def)

text \<open>
  Claim C8. On a registry where \<open>C\<close> is undeclared, \<^verbatim>\<open>declare< C >\<close> creates a
  descriptor and resolves every property that is queued under the name of \<open>C\<close>,
  wherever it stands in the queue: its metatype is the new descriptor. Every property
  queued under the name of the pointer type gets the paired pointer descriptor. No entry
  under either name is left in the queue, and the entries under other names stay. A
  property is taken to be queued under one type name, not under \<open>C\<close> and its pointer
  type at once; the compiler is taken to give the two types different names.
\<close>

theorem pending_property_resolved:
  assumes undeclared: "meta_types r (typeid_name pf C) = None"
    and names: "typeid_name pf (T_pointer C) \<noteq> typeid_name pf C"
  shows "\<exists>mc r2 obj.
      Reflector_declare pf C ann r = Inr (mc, r2) \<and> mc = next_address r \<and>
      heap r2 mc = Some obj \<and> mt_class obj = CustomMetaclass C \<and> pointerMetatype obj \<noteq> None \<and>
      (\<forall>p. (typeid_name pf C, p) \<in> set (m_pendingProperties r) \<and>
           (typeid_name pf (T_pointer C), p) \<notin> set (m_pendingProperties r) \<longrightarrow>
           property_metatype r2 p = Some mc) \<and>
      (\<forall>q. (typeid_name pf (T_pointer C), q) \<in> set (m_pendingProperties r) \<longrightarrow>
           property_metatype r2 q = pointerMetatype obj) \<and>
      (\<forall>p. (typeid_name pf C, p) \<notin> set (m_pendingProperties r2) \<and>
           (typeid_name pf (T_pointer C), p) \<notin> set (m_pendingProperties r2)) \<and>
      (\<forall>t p. t \<noteq> typeid_name pf C \<and> t \<noteq> typeid_name pf (T_pointer C) \<longrightarrow>
           ((t, p) \<in> set (m_pendingProperties r2)) = ((t, p) \<in> set (m_pendingProperties r)))"
proof -
  have a: "property_metatype (snd (projr (Reflector_declare pf C ann r))) p = Some (next_address r)"
    if "(typeid_name pf C, p) \<in> set (m_pendingProperties r)"
      "(typeid_name pf (T_pointer C), p) \<notin> set (m_pendingProperties r)" for p
  proof -
    from that(2) have "p \<notin> snd ` {x \<in> set (m_pendingProperties r).
        fst x \<noteq> typeid_name pf C \<and> fst x = typeid_name pf (T_pointer C)}"
      by force
    moreover from that(1) have "p \<in> snd ` {x \<in> set (m_pendingProperties r). fst x = typeid_name pf C}"
      by force
    ultimately show ?thesis
      by (simp add: declare_fresh [OF undeclared] fold_setMetatype)
  qed
  have b: "property_metatype (snd (projr (Reflector_declare pf C ann r))) q = Some (Suc (next_address r))"
    if "(typeid_name pf (T_pointer C), q) \<in> set (m_pendingProperties r)" for q
  proof -
    from that names have "q \<in> snd ` {x \<in> set (m_pendingProperties r).
        fst x \<noteq> typeid_name pf C \<and> fst x = typeid_name pf (T_pointer C)}"
      by force
    then show ?thesis
      by (simp add: declare_fresh [OF undeclared] fold_setMetatype)
  qed
  have c: "Reflector_declare pf C ann r =
      Inr (next_address r, snd (projr (Reflector_declare pf C ann r)))"
    by (simp add: declare_fresh [OF undeclared])
  have d: "heap (snd (projr (Reflector_declare pf C ann r))) (next_address r) =
      Some \<lparr>mt_class = CustomMetaclass C, typeInfo_name = typeid_name pf C,
            pointerMetatype = Some (Suc (next_address r)), pointee = None, mt_annotations = ann\<rparr>"
    by (simp add: declare_fresh [OF undeclared])
  have e: "set (m_pendingProperties (snd (projr (Reflector_declare pf C ann r)))) =
      {x \<in> set (m_pendingProperties r).
         fst x \<noteq> typeid_name pf C \<and> fst x \<noteq> typeid_name pf (T_pointer C)}"
    by (simp add: declare_fresh [OF undeclared])
  show ?thesis
    apply (rule exI [where x = "next_address r"])
    apply (rule exI [where x = "snd (projr (Reflector_declare pf C ann r))"])
    apply (rule exI [where x = "\<lparr>mt_class = CustomMetaclass C, typeInfo_name = typeid_name pf C,
            pointerMetatype = Some (Suc (next_address r)), pointee = None, mt_annotations = ann\<rparr>"])
    using a b c d e by auto
qed

text \<open>
  How a property comes to be queued and stays so until its type is declared:
  \<^verbatim>\<open>addPendingProperty\<close> puts the entry into the queue and keeps the others, and the
  declaration of another type leaves the entry where it is and the type undeclared.
\<close>

lemma addPendingProperty_queues:
  "(tname, prop) \<in> set (m_pendingProperties (addPendingProperty tname prop r)) \<and>
   set (m_pendingProperties r) \<subseteq> set (m_pendingProperties (addPendingProperty tname' prop' r)) \<and>
   meta_types (addPendingProperty tname prop r) = meta_types r"
  by (auto simp: addPendingProperty_def)

lemma pending_kept_by_other_declare:
  assumes und: "meta_types r (typeid_name pf D) = None"
    and other: "typeid_name pf D \<noteq> t" "typeid_name pf (T_pointer D) \<noteq> t"
    and queued: "(t, p) \<in> set (m_pendingProperties r)"
  shows "\<exists>mc r2. Reflector_declare pf D ann r = Inr (mc, r2) \<and>
      (t, p) \<in> set (m_pendingProperties r2) \<and> meta_types r2 t = meta_types r t"
  using other queued by (simp add: declare_fresh [OF und] eq_commute [of t])

lemma register_step:
  assumes "meta_types r (typeid_name pf T) = None"
  shows "register_each pf ((T, c) # rest) r =
     register_each pf rest
       (r\<lparr>next_address := Suc (Suc (next_address r)),
          meta_types := (meta_types r)
            (typeid_name pf T \<mapsto> next_address r, typeid_name pf (T_pointer T) \<mapsto> Suc (next_address r)),
          heap := (heap r)
            (Suc (next_address r) \<mapsto>
               \<lparr>mt_class = MetaPointerType, typeInfo_name = typeid_name pf (T_pointer T),
                pointerMetatype = None, pointee = Some (next_address r), mt_annotations = []\<rparr>,
             next_address r \<mapsto>
               \<lparr>mt_class = c, typeInfo_name = typeid_name pf T,
                pointerMetatype = Some (Suc (next_address r)), pointee = None, mt_annotations = []\<rparr>),
          property_metatype :=
            fold (\<lambda>it pm. pm(snd it \<mapsto> Suc (next_address r)))
              (filter (\<lambda>x. fst x \<noteq> typeid_name pf T \<and> fst x = typeid_name pf (T_pointer T))
                 (m_pendingProperties r))
              (fold (\<lambda>it pm. pm(snd it \<mapsto> next_address r))
                 (filter (\<lambda>it. fst it = typeid_name pf T) (m_pendingProperties r))
                 (property_metatype r)),
          m_pendingProperties :=
            filter (\<lambda>x. fst x \<noteq> typeid_name pf T \<and> fst x \<noteq> typeid_name pf (T_pointer T))
              (m_pendingProperties r)\<rparr>)"
proof -
  let ?obj = "\<lparr>mt_class = c, typeInfo_name = typeid_name pf T,
      pointerMetatype = None, pointee = None, mt_annotations = []\<rparr>"
  let ?r1 = "r\<lparr>heap := (heap r)(next_address r \<mapsto> ?obj), next_address := Suc (next_address r)\<rparr>"
  show ?thesis
    using assms
    by (simp add: new_metatype_def
        internal_declare_fresh [where r = ?r1 and mc = "next_address r" and obj = ?obj])
qed

lemma registered_preserved:
  assumes reg: "registered pf r d"
    and mt: "meta_types r2 = (meta_types r)(k1 \<mapsto> next_address r, k2 \<mapsto> Suc (next_address r))"
    and hp: "heap r2 = (heap r)(Suc (next_address r) \<mapsto> pobj, next_address r \<mapsto> obj)"
    and nx: "next_address r2 = Suc (Suc (next_address r))"
    and k: "typeid_name pf (fst d) \<noteq> k1" "typeid_name pf (fst d) \<noteq> k2"
      "typeid_name pf (T_pointer (fst d)) \<noteq> k1" "typeid_name pf (T_pointer (fst d)) \<noteq> k2"
  shows "registered pf r2 d"
proof -
  from reg obtain mc p o1 o2 where
    a: "meta_types r (typeid_name pf (fst d)) = Some mc"
      "meta_types r (typeid_name pf (T_pointer (fst d))) = Some p"
      "heap r mc = Some o1" "mt_class o1 = snd d" "pointerMetatype o1 = Some p"
      "heap r p = Some o2" "mt_class o2 = MetaPointerType" "pointee o2 = Some mc"
      "mc < next_address r" "p < next_address r"
    unfolding registered_def by blast
  from a k mt hp nx have
    "meta_types r2 (typeid_name pf (fst d)) = Some mc \<and>
     meta_types r2 (typeid_name pf (T_pointer (fst d))) = Some p \<and>
     heap r2 mc = Some o1 \<and> mt_class o1 = snd d \<and> pointerMetatype o1 = Some p \<and>
     heap r2 p = Some o2 \<and> mt_class o2 = MetaPointerType \<and> pointee o2 = Some mc \<and>
     mc < next_address r2 \<and> p < next_address r2"
    by simp
  then show ?thesis unfolding registered_def by blast
qed

lemma register_each_registers:
  assumes "distinct (map (\<lambda>tc. typeid_name pf (fst tc)) L @ map (\<lambda>tc. typeid_name pf (T_pointer (fst tc))) L)"
    and "\<forall>tc\<in>set L. meta_types r (typeid_name pf (fst tc)) = None"
    and "\<forall>d\<in>set Done. registered pf r d \<and>
           (\<forall>tc\<in>set L.
              typeid_name pf (fst d) \<noteq> typeid_name pf (fst tc) \<and>
              typeid_name pf (fst d) \<noteq> typeid_name pf (T_pointer (fst tc)) \<and>
              typeid_name pf (T_pointer (fst d)) \<noteq> typeid_name pf (fst tc) \<and>
              typeid_name pf (T_pointer (fst d)) \<noteq> typeid_name pf (T_pointer (fst tc)))"
  shows "\<exists>r'. register_each pf L r = Inr r' \<and> (\<forall>d\<in>set Done \<union> set L. registered pf r' d) \<and>
           m_prefixDecorators r' = m_prefixDecorators r"
  using assms
proof (induction L arbitrary: r Done)
  case Nil
  then show ?case by simp
next
  case (Cons tc rest)
  obtain T c where tc: "tc = (T, c)" by (cases tc)
  from Cons.prems(2) tc have und: "meta_types r (typeid_name pf T) = None" by simp
  define obj where "obj = \<lparr>mt_class = c, typeInfo_name = typeid_name pf T,
      pointerMetatype = Some (Suc (next_address r)), pointee = None, mt_annotations = []\<rparr>"
  define pobj where "pobj = \<lparr>mt_class = MetaPointerType, typeInfo_name = typeid_name pf (T_pointer T),
      pointerMetatype = None, pointee = Some (next_address r), mt_annotations = []\<rparr>"
  define r2 where "r2 =
       r\<lparr>next_address := Suc (Suc (next_address r)),
          meta_types := (meta_types r)
            (typeid_name pf T \<mapsto> next_address r, typeid_name pf (T_pointer T) \<mapsto> Suc (next_address r)),
          heap := (heap r)(Suc (next_address r) \<mapsto> pobj, next_address r \<mapsto> obj),
          property_metatype :=
            fold (\<lambda>it pm. pm(snd it \<mapsto> Suc (next_address r)))
              (filter (\<lambda>x. fst x \<noteq> typeid_name pf T \<and> fst x = typeid_name pf (T_pointer T))
                 (m_pendingProperties r))
              (fold (\<lambda>it pm. pm(snd it \<mapsto> next_address r))
                 (filter (\<lambda>it. fst it = typeid_name pf T) (m_pendingProperties r))
                 (property_metatype r)),
          m_pendingProperties :=
            filter (\<lambda>x. fst x \<noteq> typeid_name pf T \<and> fst x \<noteq> typeid_name pf (T_pointer T))
              (m_pendingProperties r)\<rparr>"
  have step: "register_each pf ((T, c) # rest) r = register_each pf rest r2"
    unfolding r2_def obj_def pobj_def by (rule register_step [OF und])
  have mt: "meta_types r2 = (meta_types r)
        (typeid_name pf T \<mapsto> next_address r, typeid_name pf (T_pointer T) \<mapsto> Suc (next_address r))"
    and hp: "heap r2 = (heap r)(Suc (next_address r) \<mapsto> pobj, next_address r \<mapsto> obj)"
    and nx: "next_address r2 = Suc (Suc (next_address r))"
    and dec: "m_prefixDecorators r2 = m_prefixDecorators r"
    by (simp_all add: r2_def)
  have ob: "mt_class obj = c" "pointerMetatype obj = Some (Suc (next_address r))"
      "mt_class pobj = MetaPointerType" "pointee pobj = Some (next_address r)"
    by (simp_all add: obj_def pobj_def)
  from Cons.prems(1) tc have TP: "typeid_name pf T \<noteq> typeid_name pf (T_pointer T)"
    by auto
  have head: "typeid_name pf (fst tc') \<noteq> typeid_name pf T \<and>
      typeid_name pf (fst tc') \<noteq> typeid_name pf (T_pointer T) \<and>
      typeid_name pf (T_pointer (fst tc')) \<noteq> typeid_name pf T \<and>
      typeid_name pf (T_pointer (fst tc')) \<noteq> typeid_name pf (T_pointer T)"
    if "tc' \<in> set rest" for tc'
  proof -
    from Cons.prems(1) tc have
      "typeid_name pf T \<notin> (\<lambda>tc. typeid_name pf (fst tc)) ` set rest"
      "typeid_name pf T \<notin> (\<lambda>tc. typeid_name pf (T_pointer (fst tc))) ` set rest"
      "typeid_name pf (T_pointer T) \<notin> (\<lambda>tc. typeid_name pf (fst tc)) ` set rest"
      "typeid_name pf (T_pointer T) \<notin> (\<lambda>tc. typeid_name pf (T_pointer (fst tc))) ` set rest"
      by auto
    with that show ?thesis by (metis (no_types, lifting) image_eqI)
  qed
  have regT: "registered pf r2 (T, c)"
    unfolding registered_def using mt hp ob nx TP by auto
  have dist': "distinct (map (\<lambda>tc. typeid_name pf (fst tc)) rest @ map (\<lambda>tc. typeid_name pf (T_pointer (fst tc))) rest)"
    using Cons.prems(1) by simp
  have und': "\<forall>tc'\<in>set rest. meta_types r2 (typeid_name pf (fst tc')) = None"
  proof
    fix tc' assume m: "tc' \<in> set rest"
    with Cons.prems(2) have "meta_types r (typeid_name pf (fst tc')) = None" by simp
    moreover from head [OF m] have
      "typeid_name pf (fst tc') \<noteq> typeid_name pf T"
      "typeid_name pf (fst tc') \<noteq> typeid_name pf (T_pointer T)"
      by simp_all
    ultimately show "meta_types r2 (typeid_name pf (fst tc')) = None"
      using mt by simp
  qed
  have done': "\<forall>d\<in>set ((T, c) # Done). registered pf r2 d \<and>
           (\<forall>tc\<in>set rest.
              typeid_name pf (fst d) \<noteq> typeid_name pf (fst tc) \<and>
              typeid_name pf (fst d) \<noteq> typeid_name pf (T_pointer (fst tc)) \<and>
              typeid_name pf (T_pointer (fst d)) \<noteq> typeid_name pf (fst tc) \<and>
              typeid_name pf (T_pointer (fst d)) \<noteq> typeid_name pf (T_pointer (fst tc)))"
  proof
    fix d assume d: "d \<in> set ((T, c) # Done)"
    show "registered pf r2 d \<and>
           (\<forall>tc\<in>set rest.
              typeid_name pf (fst d) \<noteq> typeid_name pf (fst tc) \<and>
              typeid_name pf (fst d) \<noteq> typeid_name pf (T_pointer (fst tc)) \<and>
              typeid_name pf (T_pointer (fst d)) \<noteq> typeid_name pf (fst tc) \<and>
              typeid_name pf (T_pointer (fst d)) \<noteq> typeid_name pf (T_pointer (fst tc)))"
    proof (cases "d = (T, c)")
      case True
      with regT head show ?thesis by (simp add: eq_commute)
    next
      case False
      with d have dD: "d \<in> set Done" by simp
      with Cons.prems(3) tc have reg: "registered pf r d"
        and k: "typeid_name pf (fst d) \<noteq> typeid_name pf T"
          "typeid_name pf (fst d) \<noteq> typeid_name pf (T_pointer T)"
          "typeid_name pf (T_pointer (fst d)) \<noteq> typeid_name pf T"
          "typeid_name pf (T_pointer (fst d)) \<noteq> typeid_name pf (T_pointer T)"
        by auto
      have "registered pf r2 d"
        by (rule registered_preserved [OF reg mt hp nx k])
      with Cons.prems(3) dD show ?thesis by simp
    qed
  qed
  from Cons.IH [OF dist' und' done'] obtain r' where
    "register_each pf rest r2 = Inr r'"
    "\<forall>d\<in>set ((T, c) # Done) \<union> set rest. registered pf r' d"
    "m_prefixDecorators r' = m_prefixDecorators r2"
    by blast
  with step tc dec show ?case by auto
qed


lemma registered_lookup:
  assumes "registered pf r tc"
    and "lookup_name pf (typeid_name pf (fst tc)) = Inr (typeid_name pf (fst tc))"
    and "lookup_name pf (typeid_name pf (T_pointer (fst tc))) = Inr (typeid_name pf (T_pointer (fst tc)))"
  shows "(\<exists>mc. Reflector_metatype_of pf (fst tc) r = Inr mc) \<and>
         (\<exists>p. Reflector_metatype_of pf (T_pointer (fst tc)) r = Inr p)"
  using assms
  by (auto simp: registered_def Reflector_metatype_of_def Reflector_metatype_def)

text \<open>
  What \<^verbatim>\<open>clear()\<close> leaves, in terms of the list \<^verbatim>\<open>register_defaults\<close> walks
  through.
\<close>

lemma clear_registers_default_types:
  assumes dist: "distinct (map (\<lambda>tc. typeid_name pf (fst tc)) default_types @
                     map (\<lambda>tc. typeid_name pf (T_pointer (fst tc))) default_types)"
    and plain: "\<forall>tc\<in>set default_types.
        lookup_name pf (typeid_name pf (fst tc)) = Inr (typeid_name pf (fst tc)) \<and>
        lookup_name pf (typeid_name pf (T_pointer (fst tc))) = Inr (typeid_name pf (T_pointer (fst tc)))"
  shows "(\<exists>r'. Reflector_clear pf r = Inr r' \<and> defaults_registered pf r') \<and>
         (\<exists>r'. Reflector_new pf = Inr r' \<and> defaults_registered pf r')"
proof -
  have main: "\<exists>r'. Reflector_clear pf r0 = Inr r' \<and> defaults_registered pf r'" for r0
  proof -
    let ?r = "registerPrefixDecorator ''class'' (registerPrefixDecorator ''struct''
        ((eraseMetatypes r0)\<lparr>m_prefixDecorators := []\<rparr>))"
    have und: "\<forall>tc\<in>set default_types. meta_types ?r (typeid_name pf (fst tc)) = None"
      by (simp add: registerPrefixDecorator_def eraseMetatypes_def)
    have dn: "\<forall>d\<in>set []. registered pf ?r d \<and>
           (\<forall>tc\<in>set default_types.
              typeid_name pf (fst d) \<noteq> typeid_name pf (fst tc) \<and>
              typeid_name pf (fst d) \<noteq> typeid_name pf (T_pointer (fst tc)) \<and>
              typeid_name pf (T_pointer (fst d)) \<noteq> typeid_name pf (fst tc) \<and>
              typeid_name pf (T_pointer (fst d)) \<noteq> typeid_name pf (T_pointer (fst tc)))"
      by simp
    from register_each_registers [OF dist und dn] obtain r' where
      run: "register_each pf default_types ?r = Inr r'"
      and reg: "\<forall>d\<in>set default_types. registered pf r' d"
      and dec: "m_prefixDecorators r' = m_prefixDecorators ?r"
      by auto
    from dec have "m_prefixDecorators r' = [''struct'', ''class'']"
      by (simp add: registerPrefixDecorator_def)
    with reg plain registered_lookup [of pf r'] have "defaults_registered pf r'"
      unfolding defaults_registered_def list_all_iff by blast
    with run show ?thesis
      by (auto simp: Reflector_clear_def register_defaults_def)
  qed
  from main [of r] main [of Reflector_empty] show ?thesis
    by (simp add: Reflector_new_def)
qed

text \<open>
  Claim C10. After \<^verbatim>\<open>clear()\<close> on any registry, and after construction, the prefix
  decorators are \<^verbatim>\<open>struct\<close> and \<^verbatim>\<open>class\<close>, and each of \<^verbatim>\<open>bool\<close>,
  \<^verbatim>\<open>char\<close>, \<^verbatim>\<open>short\<close>, \<^verbatim>\<open>int\<close>, \<^verbatim>\<open>long\<close>, \<^verbatim>\<open>float\<close>,
  \<^verbatim>\<open>double\<close>, \<^verbatim>\<open>long double\<close>, \<^verbatim>\<open>wchar_t\<close> and \<^verbatim>\<open>std::string\<close> is
  registered with the descriptor of its class and the paired pointer descriptor, and
  the lookup of each and of its pointer type succeeds. The compiler is taken to give the
  twenty types different names, which the lookup takes as they are (none is a reference
  name of a Borland build).
\<close>

theorem clear_registers_defaults:
  assumes dist: "distinct
       [typeid_name pf T_bool, typeid_name pf T_char,
        typeid_name pf T_short, typeid_name pf T_int,
        typeid_name pf T_long, typeid_name pf T_float,
        typeid_name pf T_double, typeid_name pf T_long_double,
        typeid_name pf T_wchar_t, typeid_name pf T_std_string,
        typeid_name pf (T_pointer T_bool), typeid_name pf (T_pointer T_char),
        typeid_name pf (T_pointer T_short), typeid_name pf (T_pointer T_int),
        typeid_name pf (T_pointer T_long), typeid_name pf (T_pointer T_float),
        typeid_name pf (T_pointer T_double), typeid_name pf (T_pointer T_long_double),
        typeid_name pf (T_pointer T_wchar_t), typeid_name pf (T_pointer T_std_string)]"
    and plain: "list_all (\<lambda>T. lookup_name pf (typeid_name pf T) = Inr (typeid_name pf T) \<and>
                   lookup_name pf (typeid_name pf (T_pointer T)) = Inr (typeid_name pf (T_pointer T)))
         [T_bool, T_char, T_short, T_int, T_long,
          T_float, T_double, T_long_double, T_wchar_t, T_std_string]"
  shows "(\<exists>r'. Reflector_clear pf r = Inr r' \<and>
            m_prefixDecorators r' = [''struct'', ''class''] \<and>
            list_all (\<lambda>tc. registered pf r' tc \<and>
                        (\<exists>mc. Reflector_metatype_of pf (fst tc) r' = Inr mc) \<and>
                        (\<exists>p. Reflector_metatype_of pf (T_pointer (fst tc)) r' = Inr p))
              [(T_bool, MetaBool), (T_char, MetaChar), (T_short, MetaShort),
               (T_int, MetaInt), (T_long, MetaLong), (T_float, MetaFloat),
               (T_double, MetaDouble), (T_long_double, MetaLongDouble), (T_wchar_t, MetaWchar_t),
               (T_std_string, MetaString)]) \<and>
         (\<exists>r'. Reflector_new pf = Inr r' \<and>
            m_prefixDecorators r' = [''struct'', ''class''] \<and>
            list_all (\<lambda>tc. registered pf r' tc \<and>
                        (\<exists>mc. Reflector_metatype_of pf (fst tc) r' = Inr mc) \<and>
                        (\<exists>p. Reflector_metatype_of pf (T_pointer (fst tc)) r' = Inr p))
              [(T_bool, MetaBool), (T_char, MetaChar), (T_short, MetaShort),
               (T_int, MetaInt), (T_long, MetaLong), (T_float, MetaFloat),
               (T_double, MetaDouble), (T_long_double, MetaLongDouble), (T_wchar_t, MetaWchar_t),
               (T_std_string, MetaString)])"
proof -
  from dist have d: "distinct (map (\<lambda>tc. typeid_name pf (fst tc)) default_types @
      map (\<lambda>tc. typeid_name pf (T_pointer (fst tc))) default_types)"
    by (simp add: default_types_def)
  from plain have p: "\<forall>tc\<in>set default_types.
      lookup_name pf (typeid_name pf (fst tc)) = Inr (typeid_name pf (fst tc)) \<and>
      lookup_name pf (typeid_name pf (T_pointer (fst tc))) = Inr (typeid_name pf (T_pointer (fst tc)))"
    by (simp add: default_types_def)
  from clear_registers_default_types [OF d p, of r] show ?thesis
    by (simp add: defaults_registered_def default_types_def)
qed

theorem clear_registers_defaults_witness:
  "distinct
       [typeid_name example_platform T_bool, typeid_name example_platform T_char,
        typeid_name example_platform T_short, typeid_name example_platform T_int,
        typeid_name example_platform T_long, typeid_name example_platform T_float,
        typeid_name example_platform T_double, typeid_name example_platform T_long_double,
        typeid_name example_platform T_wchar_t, typeid_name example_platform T_std_string,
        typeid_name example_platform (T_pointer T_bool), typeid_name example_platform (T_pointer T_char),
        typeid_name example_platform (T_pointer T_short), typeid_name example_platform (T_pointer T_int),
        typeid_name example_platform (T_pointer T_long), typeid_name example_platform (T_pointer T_float),
        typeid_name example_platform (T_pointer T_double), typeid_name example_platform (T_pointer T_long_double),
        typeid_name example_platform (T_pointer T_wchar_t), typeid_name example_platform (T_pointer T_std_string)] \<and>
   list_all (\<lambda>T. lookup_name example_platform (typeid_name example_platform T) = Inr (typeid_name example_platform T) \<and>
               lookup_name example_platform (typeid_name example_platform (T_pointer T)) = Inr (typeid_name example_platform (T_pointer T)))
     [T_bool, T_char, T_short, T_int, T_long,
      T_float, T_double, T_long_double, T_wchar_t, T_std_string] \<and>
   (\<exists>r'. Reflector_clear example_platform (addPendingProperty ''5Point'' 3 Reflector_empty) = Inr r' \<and>
      m_prefixDecorators r' = [''struct'', ''class''] \<and>
      list_all (\<lambda>tc. registered example_platform r' tc \<and>
                  (\<exists>mc. Reflector_metatype_of example_platform (fst tc) r' = Inr mc) \<and>
                  (\<exists>p. Reflector_metatype_of example_platform (T_pointer (fst tc)) r' = Inr p))
        [(T_bool, MetaBool), (T_char, MetaChar), (T_short, MetaShort),
         (T_int, MetaInt), (T_long, MetaLong), (T_float, MetaFloat),
         (T_double, MetaDouble), (T_long_double, MetaLongDouble), (T_wchar_t, MetaWchar_t),
         (T_std_string, MetaString)]) \<and>
   (\<exists>r'. Reflector_new example_platform = Inr r' \<and>
      m_prefixDecorators r' = [''struct'', ''class''] \<and>
      list_all (\<lambda>tc. registered example_platform r' tc \<and>
                  (\<exists>mc. Reflector_metatype_of example_platform (fst tc) r' = Inr mc) \<and>
                  (\<exists>p. Reflector_metatype_of example_platform (T_pointer (fst tc)) r' = Inr p))
        [(T_bool, MetaBool), (T_char, MetaChar), (T_short, MetaShort),
         (T_int, MetaInt), (T_long, MetaLong), (T_float, MetaFloat),
         (T_double, MetaDouble), (T_long_double, MetaLongDouble), (T_wchar_t, MetaWchar_t),
         (T_std_string, MetaString)])"
proof -
  have d: "distinct
       [typeid_name example_platform T_bool, typeid_name example_platform T_char,
        typeid_name example_platform T_short, typeid_name example_platform T_int,
        typeid_name example_platform T_long, typeid_name example_platform T_float,
        typeid_name example_platform T_double, typeid_name example_platform T_long_double,
        typeid_name example_platform T_wchar_t, typeid_name example_platform T_std_string,
        typeid_name example_platform (T_pointer T_bool), typeid_name example_platform (T_pointer T_char),
        typeid_name example_platform (T_pointer T_short), typeid_name example_platform (T_pointer T_int),
        typeid_name example_platform (T_pointer T_long), typeid_name example_platform (T_pointer T_float),
        typeid_name example_platform (T_pointer T_double), typeid_name example_platform (T_pointer T_long_double),
        typeid_name example_platform (T_pointer T_wchar_t), typeid_name example_platform (T_pointer T_std_string)]"
    by (simp add: example_platform_def)
  have p: "list_all (\<lambda>T. lookup_name example_platform (typeid_name example_platform T) = Inr (typeid_name example_platform T) \<and>
               lookup_name example_platform (typeid_name example_platform (T_pointer T)) = Inr (typeid_name example_platform (T_pointer T)))
     [T_bool, T_char, T_short, T_int, T_long,
      T_float, T_double, T_long_double, T_wchar_t, T_std_string]"
    by (simp add: lookup_name_def example_platform_def)
  from d p clear_registers_defaults [OF d p, of "addPendingProperty ''5Point'' 3 Reflector_empty"]
  show ?thesis by blast
qed

text \<open>
  The lookup, on the name it looks for: a registered name gives its descriptor; a name
  that is not registered gives the error with the demangled name when the demangling
  returns, which it always does in the GNU and Borland variants.
\<close>

lemma metatype_lookup_found:
  "lookup_name pf pname = Inr name \<Longrightarrow> meta_types r name = Some mc \<Longrightarrow>
     Reflector_metatype pf pname r = Inr mc"
  by (simp add: Reflector_metatype_def)

lemma metatype_lookup_not_declared:
  "lookup_name pf pname = Inr name \<Longrightarrow> meta_types r name = None \<Longrightarrow>
     Reflector_demangle pf r name = Inr readable \<Longrightarrow>
     Reflector_metatype pf pname r =
       Inl (Error (''Metatype '' @ [squote] @ readable @ [squote] @ '' not declared''))"
  by (simp add: Reflector_metatype_def)

lemma demangle_returns:
  "compiler pf \<noteq> OtherCompiler \<Longrightarrow> \<exists>readable. Reflector_demangle pf r name = Inr readable"
  by (cases "compiler pf") (simp_all add: Reflector_demangle_def)

lemmas registry_eval = Reflector_new_def Reflector_clear_def Reflector_empty_def register_defaults_def
  default_types_def registerPrefixDecorator_def eraseMetatypes_def new_metatype_def
  internal_declare_def set_pointerMetatype_def updatePendingProperties_def Let_def
  example_platform_def

lemma example_names:
  "typeid_name example_platform (T_class n) = n"
  "typeid_name example_platform (T_pointer (T_class n)) = CHR ''P'' # n"
  by (simp_all add: example_platform_def)

lemma example_new:
  "\<exists>r. Reflector_new example_platform = Inr r \<and>
       meta_types r ''i'' = Some 6 \<and> meta_types r ''5Point'' = None \<and>
       m_pendingProperties r = [] \<and> next_address r = 20"
  by (simp add: registry_eval)

lemma example_msvc_new:
  "\<exists>r. Reflector_new msvc_platform = Inr r \<and>
       meta_types r ''class Construct'' = None \<and>
       m_prefixDecorators r = [''struct'', ''class'']"
  by (simp add: registry_eval msvc_platform_def)

text \<open>
  Claim C7 asks that the lookup of a name that is not registered fails with the error
  \<^verbatim>\<open>Metatype '...' not declared\<close>. In the third variant of the code it does not
  always: in a fresh registry, for the undeclared class \<^verbatim>\<open>Construct\<close>, whose name is
  \<^verbatim>\<open>class Construct\<close> there, the decorator \<^verbatim>\<open>struct\<close> is found at position 9,
  the cut is at 16, behind the 15 characters of the name, and the call ends with
  \<^verbatim>\<open>std::out_of_range\<close> while the message is built.
\<close>

theorem metatype_undeclared_out_of_range:
  "\<exists>r. Reflector_new msvc_platform = Inr r \<and>
       meta_types r ''class Construct'' = None \<and>
       Reflector_metatype_of msvc_platform (T_class ''class Construct'') r = Inl out_of_range"
proof -
  from example_msvc_new obtain r where r: "Reflector_new msvc_platform = Inr r"
    "meta_types r ''class Construct'' = None" "m_prefixDecorators r = [''struct'', ''class'']"
    by blast
  have "Reflector_metatype_of msvc_platform (T_class ''class Construct'') r = Inl out_of_range"
    using r by (simp add: Reflector_metatype_of_def Reflector_metatype_def lookup_name_def
        Reflector_demangle_def msvc_platform_def)
  with r show ?thesis by blast
qed


theorem pending_property_resolved_witness:
  "meta_types (addPendingProperty ''4Date'' 9 (addPendingProperty ''P5Point'' 8
       (addPendingProperty ''5Point'' 7 (projr (Reflector_new example_platform)))))
     (typeid_name example_platform (T_class ''5Point'')) = None \<and>
   typeid_name example_platform (T_pointer (T_class ''5Point'')) \<noteq> typeid_name example_platform (T_class ''5Point'') \<and>
   (\<exists>mc r2 obj.
      Reflector_declare example_platform (T_class ''5Point'') []
        (addPendingProperty ''4Date'' 9 (addPendingProperty ''P5Point'' 8
           (addPendingProperty ''5Point'' 7 (projr (Reflector_new example_platform))))) = Inr (mc, r2) \<and>
      mc = 20 \<and> heap r2 mc = Some obj \<and> mt_class obj = CustomMetaclass (T_class ''5Point'') \<and>
      pointerMetatype obj \<noteq> None \<and>
      property_metatype r2 7 = Some mc \<and>
      property_metatype r2 8 = pointerMetatype obj \<and>
      (''5Point'', 7) \<notin> set (m_pendingProperties r2) \<and>
      (''P5Point'', 8) \<notin> set (m_pendingProperties r2) \<and>
      (''4Date'', 9) \<in> set (m_pendingProperties r2))"
proof -
  from example_new obtain r where r: "Reflector_new example_platform = Inr r"
    "meta_types r ''5Point'' = None" "next_address r = 20" "m_pendingProperties r = []"
    by blast
  let ?q = "addPendingProperty ''4Date'' 9 (addPendingProperty ''P5Point'' 8 (addPendingProperty ''5Point'' 7 r))"
  have q: "m_pendingProperties ?q = [(''5Point'', 7), (''P5Point'', 8), (''4Date'', 9)]"
    "next_address ?q = 20"
    using r by (simp_all add: addPendingProperty_def)
  have u: "meta_types ?q (typeid_name example_platform (T_class ''5Point'')) = None"
    using r by (simp add: example_names addPendingProperty_def)
  have n: "typeid_name example_platform (T_pointer (T_class ''5Point'')) \<noteq> typeid_name example_platform (T_class ''5Point'')"
    by (simp add: example_names)
  from pending_property_resolved [OF u n, of "[]"] obtain mc r2 obj where
    res: "Reflector_declare example_platform (T_class ''5Point'') [] ?q = Inr (mc, r2)"
      "mc = next_address ?q" "heap r2 mc = Some obj" "mt_class obj = CustomMetaclass (T_class ''5Point'')"
      "pointerMetatype obj \<noteq> None"
    and p: "\<forall>p. (typeid_name example_platform (T_class ''5Point''), p) \<in> set (m_pendingProperties ?q) \<and>
           (typeid_name example_platform (T_pointer (T_class ''5Point'')), p) \<notin> set (m_pendingProperties ?q) \<longrightarrow>
           property_metatype r2 p = Some mc"
    and pq: "\<forall>q. (typeid_name example_platform (T_pointer (T_class ''5Point'')), q) \<in> set (m_pendingProperties ?q) \<longrightarrow>
           property_metatype r2 q = pointerMetatype obj"
    and gone: "\<forall>p. (typeid_name example_platform (T_class ''5Point''), p) \<notin> set (m_pendingProperties r2) \<and>
           (typeid_name example_platform (T_pointer (T_class ''5Point'')), p) \<notin> set (m_pendingProperties r2)"
    and kept: "\<forall>t p. t \<noteq> typeid_name example_platform (T_class ''5Point'') \<and>
           t \<noteq> typeid_name example_platform (T_pointer (T_class ''5Point'')) \<longrightarrow>
           ((t, p) \<in> set (m_pendingProperties r2)) = ((t, p) \<in> set (m_pendingProperties ?q))"
    by blast
  from p have p7: "property_metatype r2 7 = Some mc" by (simp add: q example_names)
  from pq have p8: "property_metatype r2 8 = pointerMetatype obj" by (simp add: q example_names)
  from gone have g: "(''5Point'', 7) \<notin> set (m_pendingProperties r2)" "(''P5Point'', 8) \<notin> set (m_pendingProperties r2)"
    by (simp_all add: example_names)
  from kept have k: "(''4Date'', 9) \<in> set (m_pendingProperties r2)"
    by (simp add: q example_names)
  from res q have m: "mc = 20" by simp
  from u n res m p7 p8 g k r show ?thesis
    by (simp add: example_names)
qed

end
